theory Spec2Isabelle
  imports Main
begin

section \<open>The ICT metadata model (\<open>src/ict/metadata/objects.py\<close>)\<close>

text \<open>
  The module declares two value types, \<open>Author\<close> and \<open>DOI\<close>, each a pydantic
  \<open>RootModel\<close> around one \<open>str\<close> with a field validator, and the record \<open>Metadata\<close>
  with two field validators (\<open>check_name\<close>, \<open>check_container\<close>) and one model validator
  (\<open>default_title\<close>). A Python \<open>str\<close> is modelled as \<open>string\<close>; every \<open>raise\<close> is the
  \<open>Inl\<close> branch of a sum.
\<close>

subsection \<open>Errors\<close>

text \<open>
  \<open>ValueError\<close> and \<open>TypeError\<close> are the two exceptions the module raises itself. The
  other two constructors are the failures of the schema library around the validators:
  a required key that is absent, and a value that the declared type of a field does not
  accept (the argument names the declared type).
\<close>

datatype error =
    ValueError string
  | TypeError string
  | missing
  | wrong_type string

subsection \<open>The string operations the validators use\<close>

text \<open>
  \<open>value.split(sep)\<close> with an explicit one-character separator: the string is cut at
  every occurrence of the separator and empty pieces are kept, so the result always has
  one piece more than the string has separators.
\<close>

fun str_split :: "char \<Rightarrow> string \<Rightarrow> string list" where
  "str_split sep [] = [[]]"
| "str_split sep (c # cs) =
     (if c = sep then [] # str_split sep cs
      else (case str_split sep cs of
              [] \<Rightarrow> [[c]]
            | p # ps \<Rightarrow> (c # p) # ps))"

definition startswith :: "string \<Rightarrow> string \<Rightarrow> bool" where
  "startswith s p = (take (length p) s = p)"

subsection \<open>Author\<close>

datatype Author = Author (Author_root: string)

definition author_msg :: string where
  "author_msg = ''The author must be in the format <first name> <last name>''"

definition check_author :: "string \<Rightarrow> error + string" where
  "check_author v =
     (if \<not> (length (str_split (CHR '' '') v) = 2) then Inl (ValueError author_msg)
      else Inr v)"

text \<open>\<open>Author(raw)\<close> for a \<open>str\<close>: the field validator runs on the root, and its
  return value is stored.\<close>

definition Author_construct :: "string \<Rightarrow> error + Author" where
  "Author_construct raw = map_sum id Author (check_author raw)"

subsection \<open>DOI\<close>

datatype DOI = DOI (DOI_root: string)

definition doi_prefix_msg :: string where
  "doi_prefix_msg = ''The DOI must start with 10.''"

definition doi_format_msg :: string where
  "doi_format_msg = ''The DOI must be in the format <prefix>/<suffix>''"

definition check_doi :: "string \<Rightarrow> error + string" where
  "check_doi v =
     (if \<not> startswith v ''10.'' then Inl (ValueError doi_prefix_msg)
      else if \<not> (length (str_split (CHR ''/'') v) = 2) then Inl (ValueError doi_format_msg)
      else Inr v)"

definition DOI_construct :: "string \<Rightarrow> error + DOI" where
  "DOI_construct raw = map_sum id DOI (check_doi raw)"

subsection \<open>Python values\<close>

text \<open>
  The values a caller can hand to the module: the JSON/YAML scalars and lists, a
  \<open>pathlib.Path\<close>, instances of \<open>Author\<close> and \<open>DOI\<close>, and instances of the two types
  declared outside this module, \<open>Version\<close> (\<open>ict.version\<close>) and the URL type of the
  schema library, which are type parameters here.
\<close>

datatype ('v, 'u) pyval =
    PNone
  | PBool bool
  | PInt int
  | PStr string
  | PList "('v, 'u) pyval list"
  | PPath string
  | PAuthor Author
  | PDOI DOI
  | PVersion 'v
  | PUrl 'u

subsection \<open>Equality of the value types\<close>

text \<open>
  \<open>__eq__\<close> is a \<open>singledispatchmethod\<close>: it dispatches on the type of \<open>other\<close>. The
  base implementation raises \<open>TypeError\<close>; \<open>str\<close> and the class itself are registered.
\<close>

definition eq_msg :: string where
  "eq_msg = ''invalid type for comparison.''"

fun Author_eq :: "Author \<Rightarrow> ('v, 'u) pyval \<Rightarrow> error + bool" where
  "Author_eq self (PStr other) = Inr (Author_root self = other)"
| "Author_eq self (PAuthor other) = Inr (Author_root self = Author_root other)"
| "Author_eq self other = Inl (TypeError eq_msg)"

fun DOI_eq :: "DOI \<Rightarrow> ('v, 'u) pyval \<Rightarrow> error + bool" where
  "DOI_eq self (PStr other) = Inr (DOI_root self = other)"
| "DOI_eq self (PDOI other) = Inr (DOI_root self = DOI_root other)"
| "DOI_eq self other = Inl (TypeError eq_msg)"

subsection \<open>The name check\<close>

definition name_msg :: string where
  "name_msg = ''The name must be in the format <organization/user>/<ICT name>''"

definition check_name :: "string \<Rightarrow> error + string" where
  "check_name v =
     (if \<not> (length (str_split (CHR ''/'') v) \<in> set [2, 3]) then Inl (ValueError name_msg)
      else Inr v)"

subsection \<open>The container check\<close>

text \<open>
  \<open>check_container\<close> calls \<open>re.match\<close> with the pattern
  \<^verbatim>\<open>^[a-zA-Z]*\/{0,1}[a-zA-Z_\-]+:[a-zA-Z0-9_\.]+$\<close>.
  The pattern is a sequence of the nodes below: the two anchors, a literal character,
  and a character class under a repetition \<open>{lo,hi}\<close> (\<open>*\<close> is \<open>{0,}\<close>, \<open>+\<close> is
  \<open>{1,}\<close>). A character class is a list of ranges and single characters.
\<close>

datatype cls_item = Range char char | Single char

fun in_item :: "cls_item \<Rightarrow> char \<Rightarrow> bool" where
  "in_item (Range lo hi) c =
     ((of_char lo :: nat) \<le> of_char c \<and> (of_char c :: nat) \<le> of_char hi)"
| "in_item (Single x) c = (c = x)"

definition in_class :: "cls_item list \<Rightarrow> char \<Rightarrow> bool" where
  "in_class cls c = list_ex (\<lambda>i. in_item i c) cls"

datatype node =
    At_Beginning
  | At_End
  | Literal char
  | Repeat "cls_item list" nat "nat option"

text \<open>
  \<open>match_nodes ns pos s\<close>: the nodes \<open>ns\<close> match a prefix of \<open>s\<close>, the part of the subject
  that starts at offset \<open>pos\<close>. A repetition tries every admissible count, as the
  backtracking matcher does. Without the \<open>MULTILINE\<close> flag \<open>^\<close> matches at offset 0 only,
  and \<open>$\<close> matches at the end of the subject and also just before a newline that is its
  last character.
\<close>

fun match_nodes :: "node list \<Rightarrow> nat \<Rightarrow> string \<Rightarrow> bool" where
  "match_nodes [] pos s = True"
| "match_nodes (At_Beginning # ns) pos s = (pos = 0 \<and> match_nodes ns pos s)"
| "match_nodes (At_End # ns) pos s = ((s = [] \<or> s = [CHR 0x0A]) \<and> match_nodes ns pos s)"
| "match_nodes (Literal c # ns) pos s =
     (case s of [] \<Rightarrow> False | x # xs \<Rightarrow> x = c \<and> match_nodes ns (Suc pos) xs)"
| "match_nodes (Repeat cls lo hi # ns) pos s =
     ((lo = 0 \<and> match_nodes ns pos s) \<or>
      (hi \<noteq> Some 0 \<and>
       (case s of [] \<Rightarrow> False
        | x # xs \<Rightarrow> in_class cls x \<and>
            match_nodes (Repeat cls (lo - 1) (map_option (\<lambda>h. h - 1) hi) # ns) (Suc pos) xs)))"

text \<open>The counts a repetition \<open>{lo,hi}\<close> admits (no upper bound when \<open>hi\<close> is \<open>None\<close>).\<close>

definition within :: "nat \<Rightarrow> nat option \<Rightarrow> nat \<Rightarrow> bool" where
  "within lo hi k = (lo \<le> k \<and> (case hi of None \<Rightarrow> True | Some h \<Rightarrow> k \<le> h))"

text \<open>\<open>bool(re.match(p, s))\<close>: a match that starts at offset 0.\<close>

definition re_match :: "node list \<Rightarrow> string \<Rightarrow> bool" where
  "re_match p s = match_nodes p 0 s"

definition letters :: "cls_item list" where
  "letters = [Range (CHR ''a'') (CHR ''z''), Range (CHR ''A'') (CHR ''Z'')]"

definition repo_chars :: "cls_item list" where
  "repo_chars = letters @ [Single (CHR ''_''), Single (CHR ''-'')]"

definition tag_chars :: "cls_item list" where
  "tag_chars = letters @ [Range (CHR ''0'') (CHR ''9''), Single (CHR ''_''), Single (CHR ''.'')]"

definition container_pattern :: "node list" where
  "container_pattern =
     [At_Beginning,
      Repeat letters 0 None,
      Repeat [Single (CHR ''/'')] 0 (Some 1),
      Repeat repo_chars 1 None,
      Literal (CHR '':''),
      Repeat tag_chars 1 None,
      At_End]"

definition container_msg :: string where
  "container_msg = ''The name must be in the format <registry path>/<image repository>:<tag>''"

definition check_container :: "string \<Rightarrow> error + string" where
  "check_container v =
     (if \<not> re_match container_pattern v then Inl (ValueError container_msg) else Inr v)"

subsection \<open>The schema library around the validators\<close>

text \<open>
  \<open>Metadata\<close> is a \<open>BaseModel\<close>: constructing it validates every declared field in
  declaration order and reports all failures together, each under the location of its
  field (for an element of a list, the field and the index; for a member of a union,
  the field and the member). A failed construction raises the library's
  \<open>ValidationError\<close>, which carries that list: it is \<open>Inl\<close> of the list, which is never
  empty. A \<open>ValueError\<close> that a validator raises becomes one entry of the list.
\<close>

datatype loc = Loc string | LocIdx string nat | LocMember string string

type_synonym errors = "(loc \<times> error) list"

text \<open>Applying a constructor to one more validated field: the errors of both sides are
  kept, in order.\<close>

definition ap :: "errors + ('a \<Rightarrow> 'b) \<Rightarrow> errors + 'a \<Rightarrow> errors + 'b" where
  "ap f x =
     (case f of
        Inr g \<Rightarrow> (case x of Inr a \<Rightarrow> Inr (g a) | Inl e \<Rightarrow> Inl e)
      | Inl d \<Rightarrow> (case x of Inr a \<Rightarrow> Inl d | Inl e \<Rightarrow> Inl (d @ e)))"

definition at_loc :: "loc \<Rightarrow> error + 'a \<Rightarrow> errors + 'a" where
  "at_loc l r = (case r of Inl e \<Rightarrow> Inl [(l, e)] | Inr a \<Rightarrow> Inr a)"

text \<open>An after-validator runs on the value the declared type has produced.\<close>

definition then_check :: "error + 'a \<Rightarrow> ('a \<Rightarrow> error + 'b) \<Rightarrow> error + 'b" where
  "then_check r f = (case r of Inl e \<Rightarrow> Inl e | Inr a \<Rightarrow> f a)"

text \<open>A field declared without a default is required: an absent key is an error. A
  field declared with a default takes it when the key is absent.\<close>

definition required ::
  "string \<Rightarrow> ('x \<Rightarrow> error + 'a) \<Rightarrow> (string \<rightharpoonup> 'x) \<Rightarrow> errors + 'a" where
  "required k f kwargs =
     (case kwargs k of None \<Rightarrow> Inl [(Loc k, missing)] | Some x \<Rightarrow> at_loc (Loc k) (f x))"

definition with_default ::
  "string \<Rightarrow> 'a \<Rightarrow> ('x \<Rightarrow> error + 'a) \<Rightarrow> (string \<rightharpoonup> 'x) \<Rightarrow> errors + 'a" where
  "with_default k d f kwargs =
     (case kwargs k of None \<Rightarrow> Inr d | Some x \<Rightarrow> at_loc (Loc k) (f x))"

text \<open>
  A field whose type is a union reports, when no member accepts the value, one error
  for each member, in the order of the members and under the location of the field and
  the member.
\<close>

type_synonym member_errors = "(string \<times> error) list"

definition at_members :: "string \<Rightarrow> member_errors + 'a \<Rightarrow> errors + 'a" where
  "at_members k r =
     (case r of Inl es \<Rightarrow> Inl (map (\<lambda>(m, e). (LocMember k m, e)) es) | Inr a \<Rightarrow> Inr a)"

definition required_union ::
  "string \<Rightarrow> ('x \<Rightarrow> member_errors + 'a) \<Rightarrow> (string \<rightharpoonup> 'x) \<Rightarrow> errors + 'a" where
  "required_union k f kwargs =
     (case kwargs k of None \<Rightarrow> Inl [(Loc k, missing)] | Some x \<Rightarrow> at_members k (f x))"

text \<open>\<open>Optional[T]\<close>: \<open>None\<close> is accepted as it is, anything else must be a \<open>T\<close>.\<close>

definition optional ::
  "(('v, 'u) pyval \<Rightarrow> 'e + 'a) \<Rightarrow> ('v, 'u) pyval \<Rightarrow> 'e + 'a option" where
  "optional f x = (case x of PNone \<Rightarrow> Inr None | _ \<Rightarrow> map_sum id Some (f x))"

definition str_validate :: "('v, 'u) pyval \<Rightarrow> error + string" where
  "str_validate x = (case x of PStr s \<Rightarrow> Inr s | _ \<Rightarrow> Inl (wrong_type ''str''))"

text \<open>A field whose type is a model class takes an instance of the class as it is;
  any other value is validated as the root of a new instance.\<close>

definition Author_validate :: "('v, 'u) pyval \<Rightarrow> error + Author" where
  "Author_validate x =
     (case x of PAuthor a \<Rightarrow> Inr a | _ \<Rightarrow> then_check (str_validate x) Author_construct)"

definition DOI_validate :: "('v, 'u) pyval \<Rightarrow> error + DOI" where
  "DOI_validate x =
     (case x of PDOI d \<Rightarrow> Inr d | _ \<Rightarrow> then_check (str_validate x) DOI_construct)"

text \<open>\<open>list[T]\<close>: every element is validated, and each failure is reported under its
  index.\<close>

fun validate_items ::
  "('x \<Rightarrow> error + 'a) \<Rightarrow> string \<Rightarrow> nat \<Rightarrow> 'x list \<Rightarrow> errors + 'a list" where
  "validate_items f k i [] = Inr []"
| "validate_items f k i (x # xs) =
     ap (ap (Inr (#)) (at_loc (LocIdx k i) (f x))) (validate_items f k (Suc i) xs)"

definition required_list ::
  "string \<Rightarrow> (('v, 'u) pyval \<Rightarrow> error + 'a) \<Rightarrow> (string \<rightharpoonup> ('v, 'u) pyval) \<Rightarrow> errors + 'a list"
  where
  "required_list k f kwargs =
     (case kwargs k of
        None \<Rightarrow> Inl [(Loc k, missing)]
      | Some (PList xs) \<Rightarrow> validate_items f k 0 xs
      | Some _ \<Rightarrow> Inl [(Loc k, wrong_type ''list'')])"

text \<open>\<open>Union[EntrypointPath, str]\<close>: a path stays a path and a string stays a string.\<close>

datatype path_or_str = APath string | AStr string

definition entrypoint_validate :: "('v, 'u) pyval \<Rightarrow> member_errors + path_or_str" where
  "entrypoint_validate x =
     (case x of PPath p \<Rightarrow> Inr (APath p) | PStr s \<Rightarrow> Inr (AStr s)
      | _ \<Rightarrow> Inl [(''Path'', wrong_type ''Path''), (''str'', wrong_type ''str'')])"

text \<open>
  Three field types are declared outside this module: \<open>Version\<close> (in \<open>ict.version\<close>),
  and \<open>EmailStr\<close> and \<open>AnyHttpUrl\<close> of the schema library. Their validation is a
  parameter of the model: what each accepts, and the value it yields.
\<close>

record ('v, 'u) types =
  Version_validate :: "('v, 'u) pyval \<Rightarrow> 'v option"
  EmailStr_validate :: "('v, 'u) pyval \<Rightarrow> string option"
  AnyHttpUrl_validate :: "('v, 'u) pyval \<Rightarrow> 'u option"

definition external :: "string \<Rightarrow> ('x \<Rightarrow> 'a option) \<Rightarrow> 'x \<Rightarrow> error + 'a" where
  "external tname f x = (case f x of None \<Rightarrow> Inl (wrong_type tname) | Some a \<Rightarrow> Inr a)"

text \<open>\<open>Union[EmailStr, AnyHttpUrl]\<close>: the first member that accepts the value.\<close>

datatype 'u email_or_url = Email string | Url 'u

definition contact_validate ::
  "('v, 'u) types \<Rightarrow> ('v, 'u) pyval \<Rightarrow> member_errors + 'u email_or_url" where
  "contact_validate T x =
     (case EmailStr_validate T x of
        Some e \<Rightarrow> Inr (Email e)
      | None \<Rightarrow> (case AnyHttpUrl_validate T x of
                   Some u \<Rightarrow> Inr (Url u)
                 | None \<Rightarrow> Inl [(''EmailStr'', wrong_type ''EmailStr''),
                                (''AnyHttpUrl'', wrong_type ''AnyHttpUrl'')]))"

subsection \<open>Metadata\<close>

record ('v, 'u) Metadata =
  specVersion :: 'v
  name :: string
  version :: 'v
  container :: string
  entrypoint :: path_or_str
  title :: "string option"
  description :: "string option"
  author :: "Author list"
  contact :: "'u email_or_url option"
  repository :: 'u
  documentation :: "'u option"
  citation :: "DOI option"

definition Metadata_init ::
  "'v \<Rightarrow> string \<Rightarrow> 'v \<Rightarrow> string \<Rightarrow> path_or_str \<Rightarrow> string option \<Rightarrow> string option \<Rightarrow>
   Author list \<Rightarrow> 'u email_or_url option \<Rightarrow> 'u \<Rightarrow> 'u option \<Rightarrow> DOI option \<Rightarrow>
   ('v, 'u) Metadata" where
  "Metadata_init sv n v c e t d a ct r doc cit =
     \<lparr>specVersion = sv, name = n, version = v, container = c, entrypoint = e, title = t,
      description = d, author = a, contact = ct, repository = r, documentation = doc,
      citation = cit\<rparr>"

text \<open>The per-field phase: every field validated by its declared type and then by its
  field validator, in declaration order.\<close>

definition construct ::
  "('v, 'u) types \<Rightarrow> (string \<rightharpoonup> ('v, 'u) pyval) \<Rightarrow> errors + ('v, 'u) Metadata" where
  "construct T kwargs =
     ap (ap (ap (ap (ap (ap (ap (ap (ap (ap (ap (ap (Inr Metadata_init)
       (required ''specVersion'' (external ''Version'' (Version_validate T)) kwargs))
       (required ''name'' (\<lambda>x. then_check (str_validate x) check_name) kwargs))
       (required ''version'' (external ''Version'' (Version_validate T)) kwargs))
       (required ''container'' (\<lambda>x. then_check (str_validate x) check_container) kwargs))
       (required_union ''entrypoint'' entrypoint_validate kwargs))
       (with_default ''title'' None (optional str_validate) kwargs))
       (with_default ''description'' None (optional str_validate) kwargs))
       (required_list ''author'' Author_validate kwargs))
       (required_union ''contact'' (optional (contact_validate T)) kwargs))
       (required ''repository'' (external ''AnyHttpUrl'' (AnyHttpUrl_validate T)) kwargs))
       (with_default ''documentation'' None
          (optional (external ''AnyHttpUrl'' (AnyHttpUrl_validate T))) kwargs))
       (required ''citation'' (optional DOI_validate) kwargs)"

text \<open>The model validator, run after the fields: \<open>if self.title is None: self.title =
  self.name\<close>.\<close>

definition default_title :: "('v, 'u) Metadata \<Rightarrow> ('v, 'u) Metadata" where
  "default_title self = (if title self = None then self\<lparr>title := Some (name self)\<rparr> else self)"

definition validate ::
  "('v, 'u) types \<Rightarrow> (string \<rightharpoonup> ('v, 'u) pyval) \<Rightarrow> errors + ('v, 'u) Metadata" where
  "validate T kwargs =
     (case construct T kwargs of Inl es \<Rightarrow> Inl es | Inr self \<Rightarrow> Inr (default_title self))"

text \<open>The field values of a record, as the mapping a caller would pass again.\<close>

definition opt_val :: "('a \<Rightarrow> ('v, 'u) pyval) \<Rightarrow> 'a option \<Rightarrow> ('v, 'u) pyval" where
  "opt_val f x = (case x of None \<Rightarrow> PNone | Some a \<Rightarrow> f a)"

definition contact_val :: "'u email_or_url \<Rightarrow> ('v, 'u) pyval" where
  "contact_val c = (case c of Email e \<Rightarrow> PStr e | Url u \<Rightarrow> PUrl u)"

definition entrypoint_val :: "path_or_str \<Rightarrow> ('v, 'u) pyval" where
  "entrypoint_val e = (case e of APath p \<Rightarrow> PPath p | AStr s \<Rightarrow> PStr s)"

definition fields_of :: "('v, 'u) Metadata \<Rightarrow> (string \<rightharpoonup> ('v, 'u) pyval)" where
  "fields_of m = map_of
     [(''specVersion'', PVersion (specVersion m)),
      (''name'', PStr (name m)),
      (''version'', PVersion (version m)),
      (''container'', PStr (container m)),
      (''entrypoint'', entrypoint_val (entrypoint m)),
      (''title'', opt_val PStr (title m)),
      (''description'', opt_val PStr (description m)),
      (''author'', PList (map PAuthor (author m))),
      (''contact'', opt_val contact_val (contact m)),
      (''repository'', PUrl (repository m)),
      (''documentation'', opt_val PUrl (documentation m)),
      (''citation'', opt_val PDOI (citation m))]"

subsection \<open>What the specification says, for comparison\<close>

text \<open>
  The specification describes the author check by whitespace-separated tokens. Its
  whitespace characters are those of \<open>str.isspace\<close> in ASCII; \<open>ws_pieces\<close> cuts at every
  one of them and keeps empty pieces (no trimming), \<open>ws_tokens\<close> are the non-empty
  pieces (what \<open>str.split()\<close> without an argument returns).
\<close>

definition is_space :: "char \<Rightarrow> bool" where
  "is_space c = (c \<in> set [CHR '' '', CHR 0x09, CHR 0x0A, CHR 0x0B, CHR 0x0C, CHR 0x0D,
                            CHR 0x1C, CHR 0x1D, CHR 0x1E, CHR 0x1F])"

fun ws_pieces :: "string \<Rightarrow> string list" where
  "ws_pieces [] = [[]]"
| "ws_pieces (c # cs) =
     (if is_space c then [] # ws_pieces cs
      else (case ws_pieces cs of
              [] \<Rightarrow> [[c]]
            | p # ps \<Rightarrow> (c # p) # ps))"

definition ws_tokens :: "string \<Rightarrow> string list" where
  "ws_tokens s = filter (\<lambda>p. p \<noteq> []) (ws_pieces s)"

text \<open>
  The specification's container format: letters for an optional registry, at most one
  \<open>/\<close>, the repository, a \<open>:\<close>, the tag, and nothing else.
\<close>

definition container_format :: "string \<Rightarrow> bool" where
  "container_format v \<longleftrightarrow>
     (\<exists>reg sl repo tag.
        v = reg @ sl @ repo @ '':'' @ tag \<and>
        list_all (in_class letters) reg \<and>
        (sl = [] \<or> sl = ''/'') \<and>
        repo \<noteq> [] \<and> list_all (in_class repo_chars) repo \<and>
        tag \<noteq> [] \<and> list_all (in_class tag_chars) tag)"

text \<open>
  The specification calls the failure for an omitted key a type error. The errors of a
  failed validation that are a \<open>TypeError\<close>:
\<close>

definition is_TypeError :: "error \<Rightarrow> bool" where
  "is_TypeError e = (case e of TypeError _ \<Rightarrow> True | _ \<Rightarrow> False)"

definition type_errors :: "errors \<Rightarrow> errors" where
  "type_errors es = filter (\<lambda>p. is_TypeError (snd p)) es"

definition no_type_error :: "errors + 'a \<Rightarrow> bool" where
  "no_type_error r = (case r of Inl es \<Rightarrow> type_errors es = [] | Inr _ \<Rightarrow> True)"

text \<open>
  What validating a record's own field values again needs from the three outside
  types: a value that one of them has produced is accepted again, unchanged, and an
  \<open>AnyHttpUrl\<close> instance is not an \<open>EmailStr\<close>.
\<close>

definition revalidates :: "('v, 'u) types \<Rightarrow> bool" where
  "revalidates T \<longleftrightarrow>
     (\<forall>x v. Version_validate T x = Some v \<longrightarrow> Version_validate T (PVersion v) = Some v) \<and>
     (\<forall>x u. AnyHttpUrl_validate T x = Some u \<longrightarrow> AnyHttpUrl_validate T (PUrl u) = Some u) \<and>
     (\<forall>x e. EmailStr_validate T x = Some e \<longrightarrow> EmailStr_validate T (PStr e) = Some e) \<and>
     (\<forall>u. EmailStr_validate T (PUrl u) = None)"

subsection \<open>A sample instance\<close>

text \<open>
  Simple stand-ins for the three outside types (any non-empty string is a version, a
  string with an \<open>@\<close> is an email address, a string that starts with \<open>http\<close> is a URL,
  instances are taken as they are), and the example record of the field declarations.
\<close>

definition sample_types :: "(string, string) types" where
  "sample_types =
     \<lparr>Version_validate =
        (\<lambda>x. case x of PStr s \<Rightarrow> if s \<noteq> [] then Some s else None
                      | PVersion v \<Rightarrow> Some v
                      | _ \<Rightarrow> None),
      EmailStr_validate =
        (\<lambda>x. case x of PStr s \<Rightarrow> if CHR ''@'' \<in> set s then Some s else None
                      | _ \<Rightarrow> None),
      AnyHttpUrl_validate =
        (\<lambda>x. case x of PStr s \<Rightarrow> if startswith s ''http'' then Some s else None
                      | PUrl u \<Rightarrow> Some u
                      | _ \<Rightarrow> None)\<rparr>"

definition sample_kwargs :: "string \<rightharpoonup> (string, string) pyval" where
  "sample_kwargs = map_of
     [(''specVersion'', PStr ''0.1.0''),
      (''name'', PStr ''wipp/threshold''),
      (''version'', PStr ''1.1.1''),
      (''container'', PStr ''wipp/threshold:1.1.1''),
      (''entrypoint'', PStr ''/opt/main.sh''),
      (''author'', PList [PStr ''Mohammed Ouladi'']),
      (''contact'', PStr ''mohammed.ouladi@labshare.org''),
      (''repository'', PStr ''https://github.com/polusai/polus-plugins''),
      (''citation'', PStr ''10.1000/abc'')]"

definition sample_record :: "(string, string) Metadata" where
  "sample_record =
     \<lparr>specVersion = ''0.1.0'', name = ''wipp/threshold'', version = ''1.1.1'',
      container = ''wipp/threshold:1.1.1'', entrypoint = AStr ''/opt/main.sh'',
      title = Some ''wipp/threshold'', description = None,
      author = [Author ''Mohammed Ouladi''],
      contact = Some (Email ''mohammed.ouladi@labshare.org''),
      repository = ''https://github.com/polusai/polus-plugins'',
      documentation = None, citation = Some (DOI ''10.1000/abc'')\<rparr>"

section \<open>Properties\<close>

subsection \<open>Splitting a string\<close>

lemma str_split_not_Nil: "str_split sep s \<noteq> []"
  by (induction s) (auto split: list.splits)

lemma length_str_split: "length (str_split sep s) = Suc (count_list s sep)"
  by (induction s) (auto split: list.splits simp: str_split_not_Nil)

lemma count_one_iff:
  "count_list s c = 1 \<longleftrightarrow> (\<exists>p q. s = p @ c # q \<and> c \<notin> set p \<and> c \<notin> set q)"
proof (induction s)
  case Nil
  show ?case by simp
next
  case (Cons x xs)
  show ?case
  proof (cases "x = c")
    case True
    have "count_list xs c = 0 \<longleftrightarrow> (\<exists>p q. x # xs = p @ c # q \<and> c \<notin> set p \<and> c \<notin> set q)"
    proof
      assume "count_list xs c = 0"
      then have "c \<notin> set xs" by (simp add: count_list_0_iff)
      with True have "x # xs = [] @ c # xs \<and> c \<notin> set [] \<and> c \<notin> set xs" by simp
      then show "\<exists>p q. x # xs = p @ c # q \<and> c \<notin> set p \<and> c \<notin> set q" by blast
    next
      assume "\<exists>p q. x # xs = p @ c # q \<and> c \<notin> set p \<and> c \<notin> set q"
      then obtain p q where pq: "x # xs = p @ c # q" "c \<notin> set p" "c \<notin> set q" by blast
      with True have "p = []" by (cases p) auto
      with pq have "xs = q" by simp
      with pq show "count_list xs c = 0" by (simp add: count_list_0_iff)
    qed
    with True show ?thesis by simp
  next
    case False
    have "(\<exists>p q. xs = p @ c # q \<and> c \<notin> set p \<and> c \<notin> set q) \<longleftrightarrow>
          (\<exists>p q. x # xs = p @ c # q \<and> c \<notin> set p \<and> c \<notin> set q)"
    proof
      assume "\<exists>p q. xs = p @ c # q \<and> c \<notin> set p \<and> c \<notin> set q"
      then obtain p q where "xs = p @ c # q" "c \<notin> set p" "c \<notin> set q" by blast
      with False have "x # xs = (x # p) @ c # q \<and> c \<notin> set (x # p) \<and> c \<notin> set q" by simp
      then show "\<exists>p q. x # xs = p @ c # q \<and> c \<notin> set p \<and> c \<notin> set q" by blast
    next
      assume "\<exists>p q. x # xs = p @ c # q \<and> c \<notin> set p \<and> c \<notin> set q"
      then obtain p q where pq: "x # xs = p @ c # q" "c \<notin> set p" "c \<notin> set q" by blast
      with False obtain p' where "p = x # p'" by (cases p) auto
      with pq have "xs = p' @ c # q \<and> c \<notin> set p' \<and> c \<notin> set q" by simp
      then show "\<exists>p q. xs = p @ c # q \<and> c \<notin> set p \<and> c \<notin> set q" by blast
    qed
    with False Cons.IH show ?thesis by simp
  qed
qed

lemma str_split_no_sep: "sep \<notin> set s \<Longrightarrow> str_split sep s = [s]"
  by (induction s) auto

lemma str_split_first: "sep \<notin> set p \<Longrightarrow> str_split sep (p @ sep # q) = p # str_split sep q"
  by (induction p) auto

lemma str_split_two:
  "sep \<notin> set p \<Longrightarrow> sep \<notin> set q \<Longrightarrow> str_split sep (p @ sep # q) = [p, q]"
  by (simp add: str_split_first str_split_no_sep)

lemma check_doi_cases:
  "check_doi v =
     (if \<not> startswith v ''10.'' then Inl (ValueError doi_prefix_msg)
      else if count_list v (CHR ''/'') \<noteq> 1 then Inl (ValueError doi_format_msg)
      else Inr v)"
  by (simp add: check_doi_def length_str_split)

lemma nth_in_take: "i < n \<Longrightarrow> i < length xs \<Longrightarrow> xs ! i \<in> set (take n xs)"
  by (metis in_set_conv_nth length_take min_less_iff_conj nth_take)

lemma startswith_prefix:
  assumes "CHR ''/'' \<notin> set p"
  shows "startswith (p @ CHR ''/'' # q) ''10.'' \<longleftrightarrow> startswith p ''10.''"
proof (cases "length ''10.'' \<le> length p")
  case True
  then show ?thesis by (simp add: startswith_def)
next
  case False
  then have short: "length p < length ''10.''" by simp
  have "(p @ CHR ''/'' # q) ! length p \<in> set (take (length ''10.'') (p @ CHR ''/'' # q))"
    using short by (intro nth_in_take) simp_all
  then have mem: "CHR ''/'' \<in> set (take (length ''10.'') (p @ CHR ''/'' # q))"
    by (simp only: nth_append_length)
  have "\<not> startswith (p @ CHR ''/'' # q) ''10.''"
  proof
    assume "startswith (p @ CHR ''/'' # q) ''10.''"
    then have "take (length ''10.'') (p @ CHR ''/'' # q) = ''10.''"
      unfolding startswith_def .
    with mem have "CHR ''/'' \<in> set ''10.''" by (simp only:)
    then show False by simp
  qed
  moreover from short have "\<not> startswith p ''10.''"
    by (auto simp: startswith_def)
  ultimately show ?thesis by simp
qed

subsection \<open>DOI\<close>

text \<open>
  C2 (as amended). \<open>DOI(raw)\<close> succeeds exactly when \<open>raw\<close> is a prefix that starts
  with \<open>10.\<close>, one \<open>/\<close>, and a suffix, where neither part contains a \<open>/\<close>; the prefix is
  then not empty, the suffix may be. A construction either succeeds with the string
  unchanged or fails. The prefix check comes first: a string that does not start with
  \<open>10.\<close> fails with the prefix error whatever its segments are, and the segment error
  is raised only for a string that starts with \<open>10.\<close>.
\<close>

theorem DOI_construct_iff:
  "(DOI_construct raw = Inr (DOI raw) \<longleftrightarrow>
      (\<exists>prefix suffix. raw = prefix @ ''/'' @ suffix \<and> startswith prefix ''10.'' \<and>
         CHR ''/'' \<notin> set prefix \<and> CHR ''/'' \<notin> set suffix)) \<and>
   (DOI_construct raw = Inr (DOI raw) \<or> isl (DOI_construct raw)) \<and>
   (\<not> startswith raw ''10.'' \<longrightarrow> DOI_construct raw = Inl (ValueError doi_prefix_msg)) \<and>
   (startswith raw ''10.'' \<and> length (str_split (CHR ''/'') raw) \<noteq> 2 \<longrightarrow>
      DOI_construct raw = Inl (ValueError doi_format_msg))"
proof -
  have ok: "DOI_construct raw = Inr (DOI raw) \<longleftrightarrow>
      startswith raw ''10.'' \<and> count_list raw (CHR ''/'') = 1"
    by (simp add: DOI_construct_def check_doi_cases)
  have "startswith raw ''10.'' \<and> count_list raw (CHR ''/'') = 1 \<longleftrightarrow>
      (\<exists>prefix suffix. raw = prefix @ ''/'' @ suffix \<and> startswith prefix ''10.'' \<and>
         CHR ''/'' \<notin> set prefix \<and> CHR ''/'' \<notin> set suffix)"
    unfolding count_one_iff using startswith_prefix by auto
  with ok have c1: "DOI_construct raw = Inr (DOI raw) \<longleftrightarrow>
      (\<exists>prefix suffix. raw = prefix @ ''/'' @ suffix \<and> startswith prefix ''10.'' \<and>
         CHR ''/'' \<notin> set prefix \<and> CHR ''/'' \<notin> set suffix)"
    by (simp only:)
  have c2: "DOI_construct raw = Inr (DOI raw) \<or> isl (DOI_construct raw)"
    by (simp add: DOI_construct_def check_doi_def)
  have c3: "\<not> startswith raw ''10.'' \<longrightarrow> DOI_construct raw = Inl (ValueError doi_prefix_msg)"
    by (simp add: DOI_construct_def check_doi_def)
  have c4: "startswith raw ''10.'' \<and> length (str_split (CHR ''/'') raw) \<noteq> 2 \<longrightarrow>
      DOI_construct raw = Inl (ValueError doi_format_msg)"
    by (simp add: DOI_construct_def check_doi_def)
  from c1 c2 c3 c4 show ?thesis by (intro conjI)
qed

theorem DOI_construct_witness:
  "DOI_construct ''10.1000/abc'' = Inr (DOI ''10.1000/abc'') \<and>
   DOI_construct ''11.1000/abc'' = Inl (ValueError doi_prefix_msg) \<and>
   DOI_construct ''10.1000/abc/def'' = Inl (ValueError doi_format_msg) \<and>
   DOI_construct ''11.1000/abc/def'' = Inl (ValueError doi_prefix_msg)"
  using DOI_construct_iff [of "''10.1000/abc''"] DOI_construct_iff [of "''11.1000/abc''"]
    DOI_construct_iff [of "''10.1000/abc/def''"] DOI_construct_iff [of "''11.1000/abc/def''"]
  by (simp add: DOI_construct_def check_doi_def startswith_def)

text \<open>
  C2 as stated fails: \<open>10.1000/\<close> is accepted although its suffix is empty.
\<close>

theorem DOI_empty_suffix_counterexample:
  "DOI_construct ''10.1000/'' = Inr (DOI ''10.1000/'') \<and>
   str_split (CHR ''/'') ''10.1000/'' = [''10.1000'', []]"
  by (simp add: DOI_construct_def check_doi_def startswith_def)

subsection \<open>Author\<close>

text \<open>
  C3 (as amended). \<open>Author(raw)\<close> succeeds exactly when \<open>raw\<close> contains exactly one
  space character, that is when it is two pieces around one space, neither of which
  contains a space; either piece may be empty. Every other string fails with the format
  error. The string is not trimmed, so a leading or trailing space counts as a separator;
  the space is the only separator (a tab or a newline is an ordinary character).
\<close>

theorem Author_construct_one_space:
  "Author_construct raw =
     (if count_list raw (CHR '' '') = 1 then Inr (Author raw)
      else Inl (ValueError author_msg)) \<and>
   (Author_construct raw = Inr (Author raw) \<longleftrightarrow>
      (\<exists>first last. raw = first @ '' '' @ last \<and>
         CHR '' '' \<notin> set first \<and> CHR '' '' \<notin> set last))"
proof -
  have 1: "Author_construct raw =
     (if count_list raw (CHR '' '') = 1 then Inr (Author raw)
      else Inl (ValueError author_msg))"
    by (simp add: Author_construct_def check_author_def length_str_split)
  then have "Author_construct raw = Inr (Author raw) \<longleftrightarrow> count_list raw (CHR '' '') = 1"
    by simp
  then have 2: "Author_construct raw = Inr (Author raw) \<longleftrightarrow>
      (\<exists>first last. raw = first @ '' '' @ last \<and>
         CHR '' '' \<notin> set first \<and> CHR '' '' \<notin> set last)"
    using count_one_iff [of raw "CHR '' ''"] by simp
  from 1 2 show ?thesis by (intro conjI)
qed

theorem Author_construct_witness:
  "Author_construct ''Jane Doe'' = Inr (Author ''Jane Doe'') \<and>
   Author_construct ''Madonna'' = Inl (ValueError author_msg) \<and>
   Author_construct ''A B C'' = Inl (ValueError author_msg) \<and>
   Author_construct '' Jane Doe'' = Inl (ValueError author_msg) \<and>
   Author_construct ''Jane Doe '' = Inl (ValueError author_msg) \<and>
   Author_construct ''Jane '' = Inr (Author ''Jane '')"
  using Author_construct_one_space [of "''Jane Doe''"]
    Author_construct_one_space [of "''Madonna''"]
    Author_construct_one_space [of "''A B C''"]
    Author_construct_one_space [of "'' Jane Doe''"]
    Author_construct_one_space [of "''Jane Doe ''"]
    Author_construct_one_space [of "''Jane ''"]
  by simp

text \<open>
  C3 as stated fails: a string with a tab and one space has three whitespace-separated
  tokens and is accepted, and so is a string with a leading space and one token.
\<close>

theorem Author_whitespace_counterexample:
  "Author_construct (''A'' @ [CHR 0x09] @ ''B C'') = Inr (Author (''A'' @ [CHR 0x09] @ ''B C'')) \<and>
   length (ws_tokens (''A'' @ [CHR 0x09] @ ''B C'')) = 3 \<and>
   length (ws_pieces (''A'' @ [CHR 0x09] @ ''B C'')) = 3 \<and>
   Author_construct '' Madonna'' = Inr (Author '' Madonna'') \<and>
   length (ws_tokens '' Madonna'') = 1"
  by (simp add: Author_construct_def check_author_def ws_tokens_def is_space_def)

subsection \<open>The name check\<close>

text \<open>
  C4 (as amended). \<open>check_name\<close> accepts a name exactly when splitting it at \<open>/\<close> yields
  two or three segments, that is when it contains one or two \<open>/\<close>; the segments may be
  empty. \<open>org\<close> and \<open>a/b/c/d\<close> fail with the format error, \<open>org/tool\<close> and
  \<open>org/sub/tool\<close> are accepted.
\<close>

theorem check_name_segments:
  "check_name v =
     (if length (str_split (CHR ''/'') v) = 2 \<or> length (str_split (CHR ''/'') v) = 3
      then Inr v else Inl (ValueError name_msg)) \<and>
   (check_name v = Inr v \<longleftrightarrow>
      count_list v (CHR ''/'') = 1 \<or> count_list v (CHR ''/'') = 2) \<and>
   check_name ''org'' = Inl (ValueError name_msg) \<and>
   check_name ''a/b/c/d'' = Inl (ValueError name_msg) \<and>
   check_name ''org/tool'' = Inr ''org/tool'' \<and>
   check_name ''org/sub/tool'' = Inr ''org/sub/tool''"
proof -
  have 1: "check_name v =
     (if length (str_split (CHR ''/'') v) = 2 \<or> length (str_split (CHR ''/'') v) = 3
      then Inr v else Inl (ValueError name_msg))"
    by (simp add: check_name_def)
  have 2: "check_name v = Inr v \<longleftrightarrow>
      count_list v (CHR ''/'') = 1 \<or> count_list v (CHR ''/'') = 2"
    by (auto simp add: check_name_def length_str_split)
  have 3: "check_name ''org'' = Inl (ValueError name_msg)"
    by (simp add: check_name_def)
  have 4: "check_name ''a/b/c/d'' = Inl (ValueError name_msg)"
    by (simp add: check_name_def)
  have 5: "check_name ''org/tool'' = Inr ''org/tool''"
    by (simp add: check_name_def)
  have 6: "check_name ''org/sub/tool'' = Inr ''org/sub/tool''"
    by (simp add: check_name_def)
  from 1 2 3 4 5 6 show ?thesis by (intro conjI)
qed

theorem check_name_witness:
  "check_name ''wipp/threshold'' = Inr ''wipp/threshold'' \<and>
   check_name ''a/b/c/d/e'' = Inl (ValueError name_msg)"
  using check_name_segments [of "''wipp/threshold''"] check_name_segments [of "''a/b/c/d/e''"]
  by simp

text \<open>
  C4 as stated fails: \<open>org/\<close> and \<open>/\<close> are accepted although they have an empty
  segment.
\<close>

theorem check_name_empty_segment_counterexample:
  "check_name ''org/'' = Inr ''org/'' \<and>
   str_split (CHR ''/'') ''org/'' = [''org'', []] \<and>
   check_name ''/'' = Inr ''/'' \<and>
   str_split (CHR ''/'') ''/'' = [[], []]"
  by (simp add: check_name_def)

subsection \<open>Equality\<close>

text \<open>
  C6. Comparing an \<open>Author\<close> with an \<open>Author\<close> gives the equality of the two
  underlying strings; comparing it with a plain string gives the equality of the string
  and the underlying value; comparing it with a value of any other type raises the type
  error instead of returning false. The same holds for \<open>DOI\<close>.
\<close>

theorem eq_dispatch:
  "Author_eq a (PAuthor b) = Inr (Author_root a = Author_root b) \<and>
   Author_eq a (PStr s) = Inr (Author_root a = s) \<and>
   ((\<forall>b. x \<noteq> PAuthor b) \<and> (\<forall>s. x \<noteq> PStr s) \<longrightarrow> Author_eq a x = Inl (TypeError eq_msg)) \<and>
   DOI_eq d (PDOI e) = Inr (DOI_root d = DOI_root e) \<and>
   DOI_eq d (PStr s) = Inr (DOI_root d = s) \<and>
   ((\<forall>e. y \<noteq> PDOI e) \<and> (\<forall>s. y \<noteq> PStr s) \<longrightarrow> DOI_eq d y = Inl (TypeError eq_msg))"
proof -
  have 1: "(\<forall>b. x \<noteq> PAuthor b) \<and> (\<forall>s. x \<noteq> PStr s) \<longrightarrow> Author_eq a x = Inl (TypeError eq_msg)"
    by (cases x) simp_all
  have 2: "(\<forall>e. y \<noteq> PDOI e) \<and> (\<forall>s. y \<noteq> PStr s) \<longrightarrow> DOI_eq d y = Inl (TypeError eq_msg)"
    by (cases y) simp_all
  from 1 2 show ?thesis by simp
qed

theorem eq_dispatch_witness:
  "Author_eq (Author ''Jane Doe'') (PStr ''Jane Doe'' :: (unit, unit) pyval) = Inr True \<and>
   Author_eq (Author ''Jane Doe'') (PAuthor (Author ''Jane Doe'') :: (unit, unit) pyval) = Inr True \<and>
   Author_eq (Author ''Jane Doe'') (PStr ''jane doe'' :: (unit, unit) pyval) = Inr False \<and>
   Author_eq (Author ''Jane Doe'') (PInt 42 :: (unit, unit) pyval) = Inl (TypeError eq_msg) \<and>
   DOI_eq (DOI ''10.1000/abc'') (PDOI (DOI ''10.1000/abc'') :: (unit, unit) pyval) = Inr True \<and>
   DOI_eq (DOI ''10.1000/abc'') (PNone :: (unit, unit) pyval) = Inl (TypeError eq_msg)"
  using eq_dispatch [of "Author ''Jane Doe''" "Author ''Jane Doe''" "''Jane Doe''"
      "PInt 42 :: (unit, unit) pyval" "DOI ''10.1000/abc''" "DOI ''10.1000/abc''"
      "PNone :: (unit, unit) pyval"]
  by simp

subsection \<open>The container check\<close>

text \<open>
  A repetition matches exactly when the subject splits into a run of an admissible
  length, all of whose characters are in the class, and a rest that the remaining nodes
  match.
\<close>

lemma match_Repeat:
  "match_nodes (Repeat cls lo hi # ns) pos s \<longleftrightarrow>
     (\<exists>p r. s = p @ r \<and> within lo hi (length p) \<and> list_all (in_class cls) p \<and>
            match_nodes ns (pos + length p) r)"
proof (induction s arbitrary: lo hi pos)
  case Nil
  show ?case by (auto simp: within_def split: option.splits)
next
  case (Cons x xs)
  let ?hi' = "map_option (\<lambda>h. h - 1) hi"
  have step: "match_nodes (Repeat cls lo hi # ns) pos (x # xs) \<longleftrightarrow>
      (lo = 0 \<and> match_nodes ns pos (x # xs)) \<or>
      (hi \<noteq> Some 0 \<and> in_class cls x \<and>
        (\<exists>p r. xs = p @ r \<and> within (lo - 1) ?hi' (length p) \<and> list_all (in_class cls) p \<and>
            match_nodes ns (Suc pos + length p) r))"
    using Cons.IH [of "lo - 1" ?hi' "Suc pos"] by simp
  show ?case
  proof
    assume "match_nodes (Repeat cls lo hi # ns) pos (x # xs)"
    with step consider
        (zero) "lo = 0" "match_nodes ns pos (x # xs)"
      | (more) p r where "hi \<noteq> Some 0" "in_class cls x" "xs = p @ r"
          "within (lo - 1) ?hi' (length p)" "list_all (in_class cls) p"
          "match_nodes ns (Suc pos + length p) r"
      by blast
    then show "\<exists>p r. x # xs = p @ r \<and> within lo hi (length p) \<and> list_all (in_class cls) p \<and>
            match_nodes ns (pos + length p) r"
    proof cases
      case zero
      then have "x # xs = [] @ (x # xs) \<and> within lo hi (length ([]::string)) \<and>
                 list_all (in_class cls) [] \<and> match_nodes ns (pos + length ([]::string)) (x # xs)"
        by (simp add: within_def split: option.splits)
      then show ?thesis by blast
    next
      case more
      then have "x # xs = (x # p) @ r \<and> within lo hi (length (x # p)) \<and>
                 list_all (in_class cls) (x # p) \<and> match_nodes ns (pos + length (x # p)) r"
        by (auto simp: within_def split: option.splits)
      then show ?thesis by blast
    qed
  next
    assume "\<exists>p r. x # xs = p @ r \<and> within lo hi (length p) \<and> list_all (in_class cls) p \<and>
            match_nodes ns (pos + length p) r"
    then obtain p r where pr: "x # xs = p @ r" "within lo hi (length p)"
        "list_all (in_class cls) p" "match_nodes ns (pos + length p) r"
      by blast
    show "match_nodes (Repeat cls lo hi # ns) pos (x # xs)"
    proof (cases p)
      case Nil
      with pr show ?thesis by (simp add: within_def)
    next
      case (Cons y q)
      with pr have "hi \<noteq> Some 0" "in_class cls x" "xs = q @ r"
          "within (lo - 1) ?hi' (length q)" "list_all (in_class cls) q"
          "match_nodes ns (Suc pos + length q) r"
        by (auto simp: within_def split: option.splits)
      with step show ?thesis by blast
    qed
  qed
qed

lemma match_Literal:
  "match_nodes (Literal c # ns) pos s \<longleftrightarrow> (\<exists>r. s = c # r \<and> match_nodes ns (Suc pos) r)"
  by (cases s) auto

lemma in_class_slash: "length p \<le> 1 \<and> list_all (in_class [Single (CHR ''/'')]) p \<longleftrightarrow> p = [] \<or> p = ''/''"
  by (cases p) (auto simp: in_class_def)

lemma re_match_container_unfold:
  "re_match container_pattern v \<longleftrightarrow>
     (\<exists>reg r1. v = reg @ r1 \<and> list_all (in_class letters) reg \<and>
       (\<exists>sl r2. r1 = sl @ r2 \<and> length sl \<le> 1 \<and> list_all (in_class [Single (CHR ''/'')]) sl \<and>
         (\<exists>repo r3. r2 = repo @ r3 \<and> 1 \<le> length repo \<and> list_all (in_class repo_chars) repo \<and>
           (\<exists>r4. r3 = CHR '':'' # r4 \<and>
             (\<exists>tag r5. r4 = tag @ r5 \<and> 1 \<le> length tag \<and> list_all (in_class tag_chars) tag \<and>
                (r5 = [] \<or> r5 = [CHR 0x0A]))))))"
  unfolding re_match_def container_pattern_def
  by (simp only: match_nodes.simps(1-3) match_Repeat match_Literal within_def option.case
        simp_thms le0 conj_assoc)

lemma re_match_container:
  "re_match container_pattern v \<longleftrightarrow>
     (\<exists>w nl. v = w @ nl \<and> container_format w \<and> (nl = [] \<or> nl = [CHR 0x0A]))"
    (is "?L \<longleftrightarrow> ?R")
proof
  assume ?L
  then obtain reg r1 where 1: "v = reg @ r1" "list_all (in_class letters) reg" and
      "\<exists>sl r2. r1 = sl @ r2 \<and> length sl \<le> 1 \<and> list_all (in_class [Single (CHR ''/'')]) sl \<and>
         (\<exists>repo r3. r2 = repo @ r3 \<and> 1 \<le> length repo \<and> list_all (in_class repo_chars) repo \<and>
           (\<exists>r4. r3 = CHR '':'' # r4 \<and>
             (\<exists>tag r5. r4 = tag @ r5 \<and> 1 \<le> length tag \<and> list_all (in_class tag_chars) tag \<and>
                (r5 = [] \<or> r5 = [CHR 0x0A]))))"
    unfolding re_match_container_unfold by blast
  then obtain sl r2 where 2: "r1 = sl @ r2"
      "length sl \<le> 1 \<and> list_all (in_class [Single (CHR ''/'')]) sl" and
      "\<exists>repo r3. r2 = repo @ r3 \<and> 1 \<le> length repo \<and> list_all (in_class repo_chars) repo \<and>
           (\<exists>r4. r3 = CHR '':'' # r4 \<and>
             (\<exists>tag r5. r4 = tag @ r5 \<and> 1 \<le> length tag \<and> list_all (in_class tag_chars) tag \<and>
                (r5 = [] \<or> r5 = [CHR 0x0A])))"
    by blast
  then obtain repo r3 where 3: "r2 = repo @ r3" "1 \<le> length repo"
      "list_all (in_class repo_chars) repo" and
      "\<exists>r4. r3 = CHR '':'' # r4 \<and>
             (\<exists>tag r5. r4 = tag @ r5 \<and> 1 \<le> length tag \<and> list_all (in_class tag_chars) tag \<and>
                (r5 = [] \<or> r5 = [CHR 0x0A]))"
    by blast
  then obtain r4 tag r5 where 4: "r3 = CHR '':'' # r4" "r4 = tag @ r5" "1 \<le> length tag"
      "list_all (in_class tag_chars) tag" "r5 = [] \<or> r5 = [CHR 0x0A]"
    by blast
  from 2 have sl': "sl = [] \<or> sl = ''/''" by (simp only: in_class_slash)
  from 3 4 have ne: "repo \<noteq> []" "tag \<noteq> []" by auto
  have "container_format (reg @ sl @ repo @ '':'' @ tag)"
    unfolding container_format_def using 1 sl' 3 4 ne by blast
  moreover have "v = (reg @ sl @ repo @ '':'' @ tag) @ r5" using 1 2 3 4 by simp
  ultimately show ?R using 4 by blast
next
  assume ?R
  then obtain w nl where v: "v = w @ nl" and nl: "nl = [] \<or> nl = [CHR 0x0A]" and
      cf: "container_format w"
    by blast
  from cf obtain reg sl repo tag where
      w: "w = reg @ sl @ repo @ '':'' @ tag" and
      reg: "list_all (in_class letters) reg" and
      sl: "sl = [] \<or> sl = ''/''" and
      repo: "repo \<noteq> []" "list_all (in_class repo_chars) repo" and
      tag: "tag \<noteq> []" "list_all (in_class tag_chars) tag"
    unfolding container_format_def by blast
  from sl have sl': "length sl \<le> 1 \<and> list_all (in_class [Single (CHR ''/'')]) sl"
    by (simp only: in_class_slash)
  from repo tag have len: "1 \<le> length repo" "1 \<le> length tag"
    by (simp_all add: Suc_le_eq)
  have 5: "\<exists>tag' r5. tag @ nl = tag' @ r5 \<and> 1 \<le> length tag' \<and>
      list_all (in_class tag_chars) tag' \<and> (r5 = [] \<or> r5 = [CHR 0x0A])"
    by (rule exI [of _ tag], rule exI [of _ nl]) (use len tag nl in simp)
  have 4: "\<exists>r4. CHR '':'' # tag @ nl = CHR '':'' # r4 \<and>
      (\<exists>tag' r5. r4 = tag' @ r5 \<and> 1 \<le> length tag' \<and>
      list_all (in_class tag_chars) tag' \<and> (r5 = [] \<or> r5 = [CHR 0x0A]))"
    by (rule exI [of _ "tag @ nl"]) (use 5 in simp)
  have 3: "\<exists>repo' r3. repo @ CHR '':'' # tag @ nl = repo' @ r3 \<and> 1 \<le> length repo' \<and>
      list_all (in_class repo_chars) repo' \<and>
      (\<exists>r4. r3 = CHR '':'' # r4 \<and>
      (\<exists>tag' r5. r4 = tag' @ r5 \<and> 1 \<le> length tag' \<and>
      list_all (in_class tag_chars) tag' \<and> (r5 = [] \<or> r5 = [CHR 0x0A])))"
    by (rule exI [of _ repo], rule exI [of _ "CHR '':'' # tag @ nl"])
       (use 4 len repo in \<open>simp only: simp_thms\<close>)
  have 2: "\<exists>sl' r2. sl @ repo @ CHR '':'' # tag @ nl = sl' @ r2 \<and>
      length sl' \<le> 1 \<and> list_all (in_class [Single (CHR ''/'')]) sl' \<and>
      (\<exists>repo' r3. r2 = repo' @ r3 \<and> 1 \<le> length repo' \<and>
      list_all (in_class repo_chars) repo' \<and>
      (\<exists>r4. r3 = CHR '':'' # r4 \<and>
      (\<exists>tag' r5. r4 = tag' @ r5 \<and> 1 \<le> length tag' \<and>
      list_all (in_class tag_chars) tag' \<and> (r5 = [] \<or> r5 = [CHR 0x0A]))))"
    by (rule exI [of _ sl], rule exI [of _ "repo @ CHR '':'' # tag @ nl"])
       (use 3 sl' in \<open>simp only: simp_thms\<close>)
  have v': "v = reg @ (sl @ repo @ CHR '':'' # tag @ nl)" using v w by simp
  show ?L
    unfolding re_match_container_unfold
    by (rule exI [of _ reg], rule exI [of _ "sl @ repo @ CHR '':'' # tag @ nl"])
       (use v' reg 2 in \<open>simp only: simp_thms\<close>)
qed

lemma container_format_last:
  assumes "container_format w"
  shows "w \<noteq> [] \<and> in_class tag_chars (last w)"
proof -
  from assms obtain reg sl repo tag where
      w: "w = reg @ sl @ repo @ '':'' @ tag" and
      tag: "tag \<noteq> []" "list_all (in_class tag_chars) tag"
    unfolding container_format_def by blast
  from tag have "in_class tag_chars (last tag)"
    by (simp add: list_all_iff)
  with w tag show ?thesis by simp
qed

text \<open>
  What \<open>check_container\<close> accepts: the strings of the container format, and those
  strings followed by one newline.
\<close>

lemma check_container_iff:
  "check_container v = Inr v \<longleftrightarrow>
     container_format v \<or> (\<exists>w. v = w @ [CHR 0x0A] \<and> container_format w)"
proof -
  have "check_container v = Inr v \<longleftrightarrow> re_match container_pattern v"
    by (simp add: check_container_def)
  also have "\<dots> \<longleftrightarrow> (\<exists>w nl. v = w @ nl \<and> container_format w \<and> (nl = [] \<or> nl = [CHR 0x0A]))"
    by (rule re_match_container)
  also have "\<dots> \<longleftrightarrow> container_format v \<or> (\<exists>w. v = w @ [CHR 0x0A] \<and> container_format w)"
    by auto
  finally show ?thesis .
qed

text \<open>
  C5. The claim is that \<open>check_container\<close> accepts a string exactly when it has the
  container format. The three examples of the claim behave as it says, but the check
  also accepts \<open>threshold:1.1.1\<close> followed by a newline, which does not have the format:
  the \<open>$\<close> of the pattern matches before a final newline.
\<close>

theorem check_container_trailing_newline:
  "check_container (''threshold:1.1.1'' @ [CHR 0x0A]) = Inr (''threshold:1.1.1'' @ [CHR 0x0A]) \<and>
   \<not> container_format (''threshold:1.1.1'' @ [CHR 0x0A]) \<and>
   check_container ''threshold:1.1.1'' = Inr ''threshold:1.1.1'' \<and>
   check_container ''wipp/threshold:1.1.1'' = Inr ''wipp/threshold:1.1.1'' \<and>
   check_container ''threshold'' = Inl (ValueError container_msg)"
proof -
  have 1: "check_container (''threshold:1.1.1'' @ [CHR 0x0A]) = Inr (''threshold:1.1.1'' @ [CHR 0x0A])"
    by (simp add: check_container_def re_match_def container_pattern_def letters_def
        repo_chars_def tag_chars_def in_class_def)
  have 2: "\<not> container_format (''threshold:1.1.1'' @ [CHR 0x0A])"
  proof
    assume "container_format (''threshold:1.1.1'' @ [CHR 0x0A])"
    then have "in_class tag_chars (last (''threshold:1.1.1'' @ [CHR 0x0A]))"
      by (rule container_format_last [THEN conjunct2])
    then show False
      by (simp add: tag_chars_def letters_def in_class_def)
  qed
  have 3: "check_container ''threshold:1.1.1'' = Inr ''threshold:1.1.1''"
    by (simp add: check_container_def re_match_def container_pattern_def letters_def
        repo_chars_def tag_chars_def in_class_def)
  have 4: "check_container ''wipp/threshold:1.1.1'' = Inr ''wipp/threshold:1.1.1''"
    by (simp add: check_container_def re_match_def container_pattern_def letters_def
        repo_chars_def tag_chars_def in_class_def)
  have 5: "check_container ''threshold'' = Inl (ValueError container_msg)"
    by (simp add: check_container_def re_match_def container_pattern_def letters_def
        repo_chars_def tag_chars_def in_class_def)
  from 1 2 3 4 5 show ?thesis by (intro conjI)
qed

text \<open>
  C10. A string that begins with \<open>/\<close>, followed by a repository, a \<open>:\<close> and a tag, is
  accepted: the registry may be empty while the slash is present.
\<close>

theorem check_container_leading_slash:
  assumes "repo \<noteq> []" "list_all (in_class repo_chars) repo"
    and "tag \<noteq> []" "list_all (in_class tag_chars) tag"
  shows "check_container (''/'' @ repo @ '':'' @ tag) = Inr (''/'' @ repo @ '':'' @ tag)"
proof -
  have "''/'' @ repo @ '':'' @ tag = [] @ ''/'' @ repo @ '':'' @ tag \<and>
      list_all (in_class letters) [] \<and> (''/'' = [] \<or> ''/'' = ''/'') \<and>
      repo \<noteq> [] \<and> list_all (in_class repo_chars) repo \<and>
      tag \<noteq> [] \<and> list_all (in_class tag_chars) tag"
    using assms by simp
  then have "container_format (''/'' @ repo @ '':'' @ tag)"
    unfolding container_format_def by blast
  then show ?thesis by (simp only: check_container_iff simp_thms)
qed

theorem check_container_leading_slash_witness:
  "check_container ''/threshold:1.1.1'' = Inr ''/threshold:1.1.1''"
proof -
  have "''threshold'' \<noteq> []" "list_all (in_class repo_chars) ''threshold''"
    "''1.1.1'' \<noteq> []" "list_all (in_class tag_chars) ''1.1.1''"
    by (simp_all add: repo_chars_def tag_chars_def letters_def in_class_def)
  from check_container_leading_slash [OF this] show ?thesis by simp
qed

subsection \<open>Validating a record\<close>

lemma ap_Inr_iff: "ap f x = Inr y \<longleftrightarrow> (\<exists>g a. f = Inr g \<and> x = Inr a \<and> y = g a)"
  by (auto simp: ap_def split: sum.splits)

lemma ap_Inr_Inr: "ap (Inr g) (Inr a) = Inr (g a)"
  by (simp add: ap_def)

lemma ap_Inr_Inl: "ap (Inr g) (Inl e) = Inl e"
  by (simp add: ap_def)

lemma ap_Inl_Inr: "ap (Inl d) (Inr a) = Inl d"
  by (simp add: ap_def)

lemma construct_InrE:
  assumes "construct T kw = Inr m"
  obtains sv n v c e t d a ct r doc cit where
    "required ''specVersion'' (external ''Version'' (Version_validate T)) kw = Inr sv"
    "required ''name'' (\<lambda>x. then_check (str_validate x) check_name) kw = Inr n"
    "required ''version'' (external ''Version'' (Version_validate T)) kw = Inr v"
    "required ''container'' (\<lambda>x. then_check (str_validate x) check_container) kw = Inr c"
    "required_union ''entrypoint'' entrypoint_validate kw = Inr e"
    "with_default ''title'' None (optional str_validate) kw = Inr t"
    "with_default ''description'' None (optional str_validate) kw = Inr d"
    "required_list ''author'' Author_validate kw = Inr a"
    "required_union ''contact'' (optional (contact_validate T)) kw = Inr ct"
    "required ''repository'' (external ''AnyHttpUrl'' (AnyHttpUrl_validate T)) kw = Inr r"
    "with_default ''documentation'' None
       (optional (external ''AnyHttpUrl'' (AnyHttpUrl_validate T))) kw = Inr doc"
    "required ''citation'' (optional DOI_validate) kw = Inr cit"
    "m = Metadata_init sv n v c e t d a ct r doc cit"
  using assms unfolding construct_def ap_Inr_iff by (elim exE conjE) simp

lemma ap_reports_left:
  assumes "\<exists>es. f = Inl es \<and> p \<in> set es"
  shows "\<exists>es. ap f x = Inl es \<and> p \<in> set es"
  using assms by (cases x) (auto simp: ap_def)

lemma ap_reports_right:
  assumes "\<exists>es. x = Inl es \<and> p \<in> set es"
  shows "\<exists>es. ap f x = Inl es \<and> p \<in> set es"
  using assms by (cases f) (auto simp: ap_def)

lemma required_upd_other: "k \<noteq> k' \<Longrightarrow> required k f (kw(k' := v)) = required k f kw"
  by (simp add: required_def)

lemma with_default_upd_other:
  "k \<noteq> k' \<Longrightarrow> with_default k d f (kw(k' := v)) = with_default k d f kw"
  by (simp add: with_default_def)

lemma required_list_upd_other:
  "k \<noteq> k' \<Longrightarrow> required_list k f (kw(k' := v)) = required_list k f kw"
  by (simp add: required_list_def)

lemma required_union_upd_other:
  "k \<noteq> k' \<Longrightarrow> required_union k f (kw(k' := v)) = required_union k f kw"
  by (simp add: required_union_def)

lemma required_union_Inr_iff:
  "required_union k f kw = Inr a \<longleftrightarrow> (\<exists>x. kw k = Some x \<and> f x = Inr a)"
  by (auto simp: required_union_def at_members_def split: option.splits sum.splits)

lemma required_Inr_iff:
  "required k f kw = Inr a \<longleftrightarrow> (\<exists>x. kw k = Some x \<and> f x = Inr a)"
  by (auto simp: required_def at_loc_def split: option.splits sum.splits)

lemma with_default_Inr_iff:
  "with_default k d f kw = Inr a \<longleftrightarrow> (kw k = None \<and> a = d) \<or> (\<exists>x. kw k = Some x \<and> f x = Inr a)"
  by (auto simp: with_default_def at_loc_def split: option.splits sum.splits)

lemma then_check_str_Inr_iff:
  "then_check (str_validate x) f = Inr a \<longleftrightarrow> (\<exists>s. x = PStr s \<and> f s = Inr a)"
  by (cases x) (simp_all add: str_validate_def then_check_def)

lemma check_name_Inr: "check_name s = Inr n \<Longrightarrow> n = s"
  by (simp add: check_name_def split: if_splits)

lemma check_container_Inr: "check_container s = Inr c \<Longrightarrow> c = s"
  by (simp add: check_container_def split: if_splits)

lemma validate_items_instances:
  "validate_items Author_validate k i (map PAuthor as) = Inr as"
  by (induction as arbitrary: i) (simp_all add: Author_validate_def at_loc_def ap_def)

lemma optional_None: "optional f PNone = Inr None"
  by (simp add: optional_def)

lemma optional_Inr_iff:
  "optional f x = Inr a \<longleftrightarrow> (x = PNone \<and> a = None) \<or> (x \<noteq> PNone \<and> (\<exists>b. f x = Inr b \<and> a = Some b))"
  by (cases x; cases "f x") (auto simp: optional_def)

lemma external_Inr_iff: "external tn f x = Inr a \<longleftrightarrow> f x = Some a"
  by (simp add: external_def split: option.splits)

lemma contact_validate_Inr_iff:
  "contact_validate T x = Inr c \<longleftrightarrow>
     (\<exists>e. EmailStr_validate T x = Some e \<and> c = Email e) \<or>
     (EmailStr_validate T x = None \<and> (\<exists>u. AnyHttpUrl_validate T x = Some u \<and> c = Url u))"
  by (auto simp: contact_validate_def split: option.splits)

lemma fields_of_lookup:
  "fields_of m ''specVersion'' = Some (PVersion (specVersion m))"
  "fields_of m ''name'' = Some (PStr (name m))"
  "fields_of m ''version'' = Some (PVersion (version m))"
  "fields_of m ''container'' = Some (PStr (container m))"
  "fields_of m ''entrypoint'' = Some (entrypoint_val (entrypoint m))"
  "fields_of m ''title'' = Some (opt_val PStr (title m))"
  "fields_of m ''description'' = Some (opt_val PStr (description m))"
  "fields_of m ''author'' = Some (PList (map PAuthor (author m)))"
  "fields_of m ''contact'' = Some (opt_val contact_val (contact m))"
  "fields_of m ''repository'' = Some (PUrl (repository m))"
  "fields_of m ''documentation'' = Some (opt_val PUrl (documentation m))"
  "fields_of m ''citation'' = Some (opt_val PDOI (citation m))"
  by (simp_all add: fields_of_def)

lemma entrypoint_again: "entrypoint_validate (entrypoint_val e) = Inr e"
  by (cases e) (simp_all add: entrypoint_validate_def entrypoint_val_def)

lemma optional_str_again: "optional str_validate (opt_val PStr t) = Inr t"
  by (cases t) (simp_all add: optional_def opt_val_def str_validate_def)

lemma optional_DOI_again: "optional DOI_validate (opt_val PDOI c) = Inr c"
  by (cases c) (simp_all add: optional_def opt_val_def DOI_validate_def)

lemma optional_url_again:
  assumes "revalidates T"
    and "optional (external tn (AnyHttpUrl_validate T)) x = Inr doc"
  shows "optional (external tn (AnyHttpUrl_validate T)) (opt_val PUrl doc) = Inr doc"
proof (cases doc)
  case None
  then show ?thesis by (simp add: optional_def opt_val_def)
next
  case (Some u)
  with assms(2) have "AnyHttpUrl_validate T x = Some u"
    by (auto simp: optional_Inr_iff external_Inr_iff)
  with assms(1) have "AnyHttpUrl_validate T (PUrl u) = Some u"
    unfolding revalidates_def by blast
  with Some show ?thesis by (simp add: optional_def opt_val_def external_def)
qed

lemma optional_contact_again:
  assumes "revalidates T"
    and "optional (contact_validate T) x = Inr ct"
  shows "optional (contact_validate T) (opt_val contact_val ct) = Inr ct"
proof (cases ct)
  case None
  then show ?thesis by (simp add: optional_def opt_val_def)
next
  case (Some c)
  with assms(2) have c: "contact_validate T x = Inr c"
    by (auto simp: optional_Inr_iff)
  show ?thesis
  proof (cases c)
    case (Email e)
    with c have "EmailStr_validate T x = Some e"
      by (auto simp: contact_validate_Inr_iff)
    with assms(1) have "EmailStr_validate T (PStr e) = Some e"
      unfolding revalidates_def by blast
    with Some Email show ?thesis
      by (simp add: optional_def opt_val_def contact_val_def contact_validate_def)
  next
    case (Url u)
    with c have "AnyHttpUrl_validate T x = Some u"
      by (auto simp: contact_validate_Inr_iff)
    with assms(1) have "AnyHttpUrl_validate T (PUrl u) = Some u"
      "EmailStr_validate T (PUrl u) = None"
      unfolding revalidates_def by blast+
    with Some Url show ?thesis
      by (simp add: optional_def opt_val_def contact_val_def contact_validate_def)
  qed
qed

lemma version_again:
  assumes "revalidates T" and "external tn (Version_validate T) x = Inr v"
  shows "external tn (Version_validate T) (PVersion v) = Inr v"
proof -
  from assms(2) have "Version_validate T x = Some v" by (simp add: external_Inr_iff)
  with assms(1) have "Version_validate T (PVersion v) = Some v"
    unfolding revalidates_def by blast
  then show ?thesis by (simp add: external_def)
qed

lemma url_again:
  assumes "revalidates T" and "external tn (AnyHttpUrl_validate T) x = Inr u"
  shows "external tn (AnyHttpUrl_validate T) (PUrl u) = Inr u"
proof -
  from assms(2) have "AnyHttpUrl_validate T x = Some u" by (simp add: external_Inr_iff)
  with assms(1) have "AnyHttpUrl_validate T (PUrl u) = Some u"
    unfolding revalidates_def by blast
  then show ?thesis by (simp add: external_def)
qed

lemma Metadata_init_sel:
  "specVersion (Metadata_init sv n v c e t d a ct r doc cit) = sv"
  "name (Metadata_init sv n v c e t d a ct r doc cit) = n"
  "version (Metadata_init sv n v c e t d a ct r doc cit) = v"
  "container (Metadata_init sv n v c e t d a ct r doc cit) = c"
  "entrypoint (Metadata_init sv n v c e t d a ct r doc cit) = e"
  "title (Metadata_init sv n v c e t d a ct r doc cit) = t"
  "description (Metadata_init sv n v c e t d a ct r doc cit) = d"
  "author (Metadata_init sv n v c e t d a ct r doc cit) = a"
  "contact (Metadata_init sv n v c e t d a ct r doc cit) = ct"
  "repository (Metadata_init sv n v c e t d a ct r doc cit) = r"
  "documentation (Metadata_init sv n v c e t d a ct r doc cit) = doc"
  "citation (Metadata_init sv n v c e t d a ct r doc cit) = cit"
  by (simp_all add: Metadata_init_def)

lemma default_title_init:
  "default_title (Metadata_init sv n v c e t d a ct r doc cit) =
     Metadata_init sv n v c e (if t = None then Some n else t) d a ct r doc cit"
  by (simp add: default_title_def Metadata_init_def)

lemma construct_again:
  assumes rv: "revalidates T" and c: "construct T kw = Inr m0"
  shows "construct T (fields_of (default_title m0)) = Inr (default_title m0)"
proof -
  from c obtain sv n v c e t d a ct r doc cit where
    f: "required ''specVersion'' (external ''Version'' (Version_validate T)) kw = Inr sv"
    "required ''name'' (\<lambda>x. then_check (str_validate x) check_name) kw = Inr n"
    "required ''version'' (external ''Version'' (Version_validate T)) kw = Inr v"
    "required ''container'' (\<lambda>x. then_check (str_validate x) check_container) kw = Inr c"
    "required_union ''entrypoint'' entrypoint_validate kw = Inr e"
    "with_default ''title'' None (optional str_validate) kw = Inr t"
    "with_default ''description'' None (optional str_validate) kw = Inr d"
    "required_list ''author'' Author_validate kw = Inr a"
    "required_union ''contact'' (optional (contact_validate T)) kw = Inr ct"
    "required ''repository'' (external ''AnyHttpUrl'' (AnyHttpUrl_validate T)) kw = Inr r"
    "with_default ''documentation'' None
       (optional (external ''AnyHttpUrl'' (AnyHttpUrl_validate T))) kw = Inr doc"
    "required ''citation'' (optional DOI_validate) kw = Inr cit"
    and m0: "m0 = Metadata_init sv n v c e t d a ct r doc cit"
    by (rule construct_InrE)
  define t' where "t' = (if t = None then Some n else t)"
  define m where "m = Metadata_init sv n v c e t' d a ct r doc cit"
  have m: "default_title m0 = m"
    by (simp add: m0 m_def t'_def default_title_init)
  have sel: "specVersion m = sv" "name m = n" "version m = v" "container m = c"
    "entrypoint m = e" "title m = t'" "description m = d" "author m = a" "contact m = ct"
    "repository m = r" "documentation m = doc" "citation m = cit"
    by (simp_all add: m_def Metadata_init_sel)
  have 1: "required ''specVersion'' (external ''Version'' (Version_validate T)) (fields_of m) = Inr sv"
    using f(1) version_again [OF rv]
    by (auto simp: required_Inr_iff fields_of_lookup sel)
  have 2: "required ''name'' (\<lambda>x. then_check (str_validate x) check_name) (fields_of m) = Inr n"
    using f(2) check_name_Inr
    by (fastforce simp: required_Inr_iff fields_of_lookup sel then_check_str_Inr_iff)
  have 3: "required ''version'' (external ''Version'' (Version_validate T)) (fields_of m) = Inr v"
    using f(3) version_again [OF rv]
    by (auto simp: required_Inr_iff fields_of_lookup sel)
  have 4: "required ''container'' (\<lambda>x. then_check (str_validate x) check_container) (fields_of m) = Inr c"
    using f(4) check_container_Inr
    by (fastforce simp: required_Inr_iff fields_of_lookup sel then_check_str_Inr_iff)
  have 5: "required_union ''entrypoint'' entrypoint_validate (fields_of m) = Inr e"
    by (simp add: required_union_Inr_iff fields_of_lookup sel entrypoint_again)
  have 6: "with_default ''title'' None (optional str_validate) (fields_of m) = Inr t'"
    by (simp add: with_default_Inr_iff fields_of_lookup sel optional_str_again)
  have 7: "with_default ''description'' None (optional str_validate) (fields_of m) = Inr d"
    by (simp add: with_default_Inr_iff fields_of_lookup sel optional_str_again)
  have 8: "required_list ''author'' Author_validate (fields_of m) = Inr a"
    by (simp add: required_list_def fields_of_lookup sel validate_items_instances)
  have 9: "required_union ''contact'' (optional (contact_validate T)) (fields_of m) = Inr ct"
    using f(9) optional_contact_again [OF rv]
    by (auto simp: required_union_Inr_iff fields_of_lookup sel)
  have 10: "required ''repository'' (external ''AnyHttpUrl'' (AnyHttpUrl_validate T)) (fields_of m) = Inr r"
    using f(10) url_again [OF rv]
    by (auto simp: required_Inr_iff fields_of_lookup sel)
  have 11: "with_default ''documentation'' None
       (optional (external ''AnyHttpUrl'' (AnyHttpUrl_validate T))) (fields_of m) = Inr doc"
    using f(11) optional_url_again [OF rv]
    by (auto simp: with_default_Inr_iff fields_of_lookup sel optional_None opt_val_def)
  have 12: "required ''citation'' (optional DOI_validate) (fields_of m) = Inr cit"
    by (simp add: required_Inr_iff fields_of_lookup sel optional_DOI_again)
  have "construct T (fields_of m) = Inr m"
    by (simp only: construct_def 1 2 3 4 5 6 7 8 9 10 11 12 ap_Inr_Inr) (simp only: m_def)
  with m show ?thesis by simp
qed

lemma default_title_idem: "default_title (default_title m) = default_title m"
  by (simp add: default_title_def)

text \<open>
  C7. Validation is idempotent: when \<open>validate\<close> succeeds, validating the field values
  of its result succeeds again and yields the same record. The three field types that
  are declared outside the module enter through \<open>revalidates\<close>.
\<close>

theorem validate_idempotent:
  assumes "revalidates T" and "validate T kw = Inr m"
  shows "validate T (fields_of m) = Inr m"
proof -
  from assms(2) obtain m0 where m0: "construct T kw = Inr m0" "m = default_title m0"
    by (auto simp: validate_def split: sum.splits)
  from construct_again [OF assms(1) m0(1)] m0(2)
  have "construct T (fields_of m) = Inr m" by simp
  then show ?thesis
    by (simp add: validate_def m0(2) default_title_idem)
qed

text \<open>The sample instance: its types accept their own results, and the example
  mapping validates to the example record.\<close>

lemma sample_types_revalidates: "revalidates sample_types"
  unfolding revalidates_def sample_types_def
  by (auto split: pyval.splits if_splits)

lemma sample_construct:
  "construct sample_types sample_kwargs = Inr (sample_record\<lparr>title := None\<rparr>)"
  by (simp add: construct_def sample_types_def sample_kwargs_def sample_record_def
      required_def required_union_def with_default_def required_list_def at_loc_def
      at_members_def then_check_def
      str_validate_def external_def optional_def entrypoint_validate_def
      contact_validate_def Author_validate_def DOI_validate_def Author_construct_def
      DOI_construct_def check_author_def check_doi_def check_name_def check_container_def
      re_match_def container_pattern_def letters_def repo_chars_def tag_chars_def
      in_class_def startswith_def ap_def Metadata_init_def)

lemma sample_validate: "validate sample_types sample_kwargs = Inr sample_record"
  by (simp add: validate_def sample_construct default_title_def) (simp add: sample_record_def)

theorem validate_idempotent_witness:
  "revalidates sample_types \<and>
   validate sample_types sample_kwargs = Inr sample_record \<and>
   validate sample_types (fields_of sample_record) = Inr sample_record"
  using validate_idempotent [OF sample_types_revalidates sample_validate]
    sample_types_revalidates sample_validate
  by simp

text \<open>
  C1. When every per-field check passes and \<open>title\<close> is absent or null, \<open>validate\<close>
  succeeds and the title of the record is its name, the string given under \<open>name\<close>.
  Whenever \<open>validate\<close> succeeds the title is not null.
\<close>

theorem title_defaults_to_name:
  "(construct T kw = Inr m0 \<and> (kw ''title'' = None \<or> kw ''title'' = Some PNone) \<longrightarrow>
      (\<exists>m. validate T kw = Inr m \<and> title m = Some (name m) \<and>
           kw ''name'' = Some (PStr (name m)))) \<and>
   (validate T kw = Inr m' \<longrightarrow> title m' \<noteq> None)"
proof (intro conjI impI)
  assume a: "construct T kw = Inr m0 \<and> (kw ''title'' = None \<or> kw ''title'' = Some PNone)"
  then obtain sv n v c e t d au ct r doc cit where
    n: "required ''name'' (\<lambda>x. then_check (str_validate x) check_name) kw = Inr n" and
    t: "with_default ''title'' None (optional str_validate) kw = Inr t" and
    m0: "m0 = Metadata_init sv n v c e t d au ct r doc cit"
    by (auto elim: construct_InrE)
  from a t have "t = None"
    by (auto simp: with_default_Inr_iff optional_Inr_iff)
  with m0 have 1: "title (default_title m0) = Some (name (default_title m0))"
    by (simp add: default_title_init Metadata_init_sel)
  from n obtain s where "kw ''name'' = Some (PStr s)" "check_name s = Inr n"
    by (auto simp: required_Inr_iff then_check_str_Inr_iff)
  with check_name_Inr have "kw ''name'' = Some (PStr n)" by blast
  with m0 have 2: "kw ''name'' = Some (PStr (name (default_title m0)))"
    by (simp add: default_title_init Metadata_init_sel)
  from a have "validate T kw = Inr (default_title m0)"
    by (simp add: validate_def)
  with 1 2 show "\<exists>m. validate T kw = Inr m \<and> title m = Some (name m) \<and>
           kw ''name'' = Some (PStr (name m))"
    by blast
next
  assume "validate T kw = Inr m'"
  then obtain m0 where "m' = default_title m0"
    by (auto simp: validate_def split: sum.splits)
  then show "title m' \<noteq> None"
    by (simp add: default_title_def)
qed

theorem title_defaults_to_name_witness:
  "construct sample_types sample_kwargs = Inr (sample_record\<lparr>title := None\<rparr>) \<and>
   sample_kwargs ''title'' = None \<and>
   (\<exists>m. validate sample_types sample_kwargs = Inr m \<and> title m = Some ''wipp/threshold'' \<and>
        name m = ''wipp/threshold'')"
proof -
  have k: "sample_kwargs ''title'' = None" "sample_kwargs ''name'' = Some (PStr ''wipp/threshold'')"
    by (simp_all add: sample_kwargs_def)
  from title_defaults_to_name [of sample_types sample_kwargs "sample_record\<lparr>title := None\<rparr>"]
    sample_construct k
  have "\<exists>m. validate sample_types sample_kwargs = Inr m \<and> title m = Some (name m) \<and>
           Some (PStr ''wipp/threshold'' :: (string, string) pyval) = Some (PStr (name m))"
    by simp
  then have "\<exists>m. validate sample_types sample_kwargs = Inr m \<and> title m = Some ''wipp/threshold'' \<and>
        name m = ''wipp/threshold''"
    by auto
  with sample_construct k show ?thesis by simp
qed

text \<open>
  C8. A validated record is the constructed record with at most its title changed: every
  other field has the value established at construction, the title is the constructed
  one or, when that was null, the name; the default is applied once, and applying it
  again changes nothing.
\<close>

theorem default_title_frame:
  "validate T kw = Inr m \<longrightarrow>
     (\<exists>m0. construct T kw = Inr m0 \<and> m = default_title m0 \<and>
        m = m0\<lparr>title := title m\<rparr> \<and>
        specVersion m = specVersion m0 \<and> name m = name m0 \<and> version m = version m0 \<and>
        container m = container m0 \<and> entrypoint m = entrypoint m0 \<and>
        description m = description m0 \<and> author m = author m0 \<and>
        contact m = contact m0 \<and> repository m = repository m0 \<and>
        documentation m = documentation m0 \<and> citation m = citation m0 \<and>
        title m = (case title m0 of None \<Rightarrow> Some (name m0) | Some t \<Rightarrow> Some t) \<and>
        default_title m = m)"
proof
  assume "validate T kw = Inr m"
  then obtain m0 where m0: "construct T kw = Inr m0" "m = default_title m0"
    by (auto simp: validate_def split: sum.splits)
  have "default_title m0 = m0\<lparr>title := title (default_title m0)\<rparr>"
    by (simp add: default_title_def)
  moreover have "specVersion (default_title m0) = specVersion m0"
    "name (default_title m0) = name m0" "version (default_title m0) = version m0"
    "container (default_title m0) = container m0" "entrypoint (default_title m0) = entrypoint m0"
    "description (default_title m0) = description m0" "author (default_title m0) = author m0"
    "contact (default_title m0) = contact m0" "repository (default_title m0) = repository m0"
    "documentation (default_title m0) = documentation m0"
    "citation (default_title m0) = citation m0"
    by (simp_all add: default_title_def)
  moreover have "title (default_title m0) =
      (case title m0 of None \<Rightarrow> Some (name m0) | Some t \<Rightarrow> Some t)"
    by (simp add: default_title_def split: option.splits)
  moreover note default_title_idem [of m0]
  ultimately show "\<exists>m0. construct T kw = Inr m0 \<and> m = default_title m0 \<and>
        m = m0\<lparr>title := title m\<rparr> \<and>
        specVersion m = specVersion m0 \<and> name m = name m0 \<and> version m = version m0 \<and>
        container m = container m0 \<and> entrypoint m = entrypoint m0 \<and>
        description m = description m0 \<and> author m = author m0 \<and>
        contact m = contact m0 \<and> repository m = repository m0 \<and>
        documentation m = documentation m0 \<and> citation m = citation m0 \<and>
        title m = (case title m0 of None \<Rightarrow> Some (name m0) | Some t \<Rightarrow> Some t) \<and>
        default_title m = m"
    using m0 by (intro exI [of _ m0]) (simp only: simp_thms)
qed

theorem default_title_frame_witness:
  "validate sample_types sample_kwargs = Inr sample_record \<and>
   construct sample_types sample_kwargs = Inr (sample_record\<lparr>title := None\<rparr>) \<and>
   default_title sample_record = sample_record"
  using default_title_frame [of sample_types sample_kwargs sample_record]
    sample_validate sample_construct
  by auto

lemma construct_reports_contact:
  assumes "kw ''contact'' = None"
  shows "\<exists>es. construct T kw = Inl es \<and> (Loc ''contact'', missing) \<in> set es"
  unfolding construct_def
  by (rule ap_reports_left, rule ap_reports_left, rule ap_reports_left, rule ap_reports_right)
     (simp add: required_union_def assms)

lemma construct_reports_citation:
  assumes "kw ''citation'' = None"
  shows "\<exists>es. construct T kw = Inl es \<and> (Loc ''citation'', missing) \<in> set es"
  unfolding construct_def
  by (rule ap_reports_right) (simp add: required_def assms)

lemma construct_without_contact:
  assumes "construct T kw = Inr m0"
  shows "construct T (kw(''contact'' := None)) = Inl [(Loc ''contact'', missing)]"
    and "construct T (kw(''contact'' \<mapsto> PNone)) = Inr (m0\<lparr>contact := None\<rparr>)"
proof -
  from assms obtain sv n v c e t d a ct r doc cit where
    f: "required ''specVersion'' (external ''Version'' (Version_validate T)) kw = Inr sv"
    "required ''name'' (\<lambda>x. then_check (str_validate x) check_name) kw = Inr n"
    "required ''version'' (external ''Version'' (Version_validate T)) kw = Inr v"
    "required ''container'' (\<lambda>x. then_check (str_validate x) check_container) kw = Inr c"
    "required_union ''entrypoint'' entrypoint_validate kw = Inr e"
    "with_default ''title'' None (optional str_validate) kw = Inr t"
    "with_default ''description'' None (optional str_validate) kw = Inr d"
    "required_list ''author'' Author_validate kw = Inr a"
    "required ''repository'' (external ''AnyHttpUrl'' (AnyHttpUrl_validate T)) kw = Inr r"
    "with_default ''documentation'' None
       (optional (external ''AnyHttpUrl'' (AnyHttpUrl_validate T))) kw = Inr doc"
    "required ''citation'' (optional DOI_validate) kw = Inr cit"
    and m0: "m0 = Metadata_init sv n v c e t d a ct r doc cit"
    by (rule construct_InrE)
  have absent: "required_union ''contact'' (optional (contact_validate T)) (kw(''contact'' := None)) =
      Inl [(Loc ''contact'', missing)]"
    by (simp add: required_union_def)
  have null: "required_union ''contact'' (optional (contact_validate T)) (kw(''contact'' \<mapsto> PNone)) =
      Inr None"
    by (simp add: required_union_def optional_def at_members_def)
  show "construct T (kw(''contact'' := None)) = Inl [(Loc ''contact'', missing)]"
    by (simp add: construct_def required_upd_other required_union_upd_other
        with_default_upd_other
        required_list_upd_other f absent ap_Inr_Inr ap_Inr_Inl ap_Inl_Inr)
  show "construct T (kw(''contact'' \<mapsto> PNone)) = Inr (m0\<lparr>contact := None\<rparr>)"
    by (simp add: construct_def required_upd_other required_union_upd_other
        with_default_upd_other
        required_list_upd_other f null ap_Inr_Inr m0 Metadata_init_def)
qed

lemma construct_without_citation:
  assumes "construct T kw = Inr m0"
  shows "construct T (kw(''citation'' := None)) = Inl [(Loc ''citation'', missing)]"
    and "construct T (kw(''citation'' \<mapsto> PNone)) = Inr (m0\<lparr>citation := None\<rparr>)"
proof -
  from assms obtain sv n v c e t d a ct r doc cit where
    f: "required ''specVersion'' (external ''Version'' (Version_validate T)) kw = Inr sv"
    "required ''name'' (\<lambda>x. then_check (str_validate x) check_name) kw = Inr n"
    "required ''version'' (external ''Version'' (Version_validate T)) kw = Inr v"
    "required ''container'' (\<lambda>x. then_check (str_validate x) check_container) kw = Inr c"
    "required_union ''entrypoint'' entrypoint_validate kw = Inr e"
    "with_default ''title'' None (optional str_validate) kw = Inr t"
    "with_default ''description'' None (optional str_validate) kw = Inr d"
    "required_list ''author'' Author_validate kw = Inr a"
    "required_union ''contact'' (optional (contact_validate T)) kw = Inr ct"
    "required ''repository'' (external ''AnyHttpUrl'' (AnyHttpUrl_validate T)) kw = Inr r"
    "with_default ''documentation'' None
       (optional (external ''AnyHttpUrl'' (AnyHttpUrl_validate T))) kw = Inr doc"
    and m0: "m0 = Metadata_init sv n v c e t d a ct r doc cit"
    by (rule construct_InrE)
  have absent: "required ''citation'' (optional DOI_validate) (kw(''citation'' := None)) =
      Inl [(Loc ''citation'', missing)]"
    by (simp add: required_def)
  have null: "required ''citation'' (optional DOI_validate) (kw(''citation'' \<mapsto> PNone)) =
      Inr None"
    by (simp add: required_def optional_def at_loc_def)
  show "construct T (kw(''citation'' := None)) = Inl [(Loc ''citation'', missing)]"
    by (simp add: construct_def required_upd_other required_union_upd_other
        with_default_upd_other
        required_list_upd_other f absent ap_Inr_Inr ap_Inr_Inl ap_Inl_Inr)
  show "construct T (kw(''citation'' \<mapsto> PNone)) = Inr (m0\<lparr>citation := None\<rparr>)"
    by (simp add: construct_def required_upd_other required_union_upd_other
        with_default_upd_other
        required_list_upd_other f null ap_Inr_Inr m0 Metadata_init_def)
qed

lemma default_title_contact:
  "default_title (m\<lparr>contact := x\<rparr>) = (default_title m)\<lparr>contact := x\<rparr>"
  by (simp add: default_title_def)

lemma default_title_citation:
  "default_title (m\<lparr>citation := x\<rparr>) = (default_title m)\<lparr>citation := x\<rparr>"
  by (simp add: default_title_def)

text \<open>No validator of a field produces a \<open>TypeError\<close>, so no failure of \<open>validate\<close>
  contains one.\<close>

lemma no_type_error_Inr: "no_type_error (Inr a)"
  by (simp add: no_type_error_def)

lemma no_type_error_ap:
  "no_type_error f \<Longrightarrow> no_type_error x \<Longrightarrow> no_type_error (ap f x)"
  by (cases f; cases x) (simp_all add: no_type_error_def ap_def type_errors_def)

lemma no_type_error_required:
  assumes "\<And>x e. f x = Inl e \<Longrightarrow> \<not> is_TypeError e"
  shows "no_type_error (required k f kw)"
proof (cases "kw k")
  case None
  then show ?thesis
    by (simp add: required_def no_type_error_def type_errors_def is_TypeError_def)
next
  case (Some x)
  with assms [of x] show ?thesis
    by (cases "f x") (simp_all add: required_def at_loc_def no_type_error_def type_errors_def)
qed

lemma no_type_error_with_default:
  assumes "\<And>x e. f x = Inl e \<Longrightarrow> \<not> is_TypeError e"
  shows "no_type_error (with_default k d f kw)"
proof (cases "kw k")
  case None
  then show ?thesis
    by (simp add: with_default_def no_type_error_def)
next
  case (Some x)
  with assms [of x] show ?thesis
    by (cases "f x") (simp_all add: with_default_def at_loc_def no_type_error_def type_errors_def)
qed

lemma no_type_error_required_union:
  assumes "\<And>x es. f x = Inl es \<Longrightarrow> list_all (\<lambda>p. \<not> is_TypeError (snd p)) es"
  shows "no_type_error (required_union k f kw)"
proof (cases "kw k")
  case None
  then show ?thesis
    by (simp add: required_union_def no_type_error_def type_errors_def is_TypeError_def)
next
  case (Some x)
  show ?thesis
  proof (cases "f x")
    case (Inl es)
    from assms [OF this] have "filter (\<lambda>p. is_TypeError (snd p))
        (map (\<lambda>(m, e). (LocMember k m, e)) es) = []"
      by (induction es) (auto simp: list_all_iff)
    with Some Inl show ?thesis
      by (simp add: required_union_def at_members_def no_type_error_def type_errors_def)
  next
    case (Inr a)
    with Some show ?thesis
      by (simp add: required_union_def at_members_def no_type_error_def)
  qed
qed

lemma no_type_error_items:
  assumes "\<And>x e. f x = Inl e \<Longrightarrow> \<not> is_TypeError e"
  shows "no_type_error (validate_items f k i xs)"
proof (induction xs arbitrary: i)
  case Nil
  show ?case by (simp add: no_type_error_def)
next
  case (Cons x xs)
  have "no_type_error (at_loc (LocIdx k i) (f x))"
    using assms [of x]
    by (cases "f x") (simp_all add: at_loc_def no_type_error_def type_errors_def)
  with Cons.IH [of "Suc i"] show ?case
    by (simp add: no_type_error_ap no_type_error_Inr)
qed

lemma no_type_error_required_list:
  assumes "\<And>x e. f x = Inl e \<Longrightarrow> \<not> is_TypeError e"
  shows "no_type_error (required_list k f kw)"
proof (cases "kw k")
  case None
  then show ?thesis
    by (simp add: required_list_def no_type_error_def type_errors_def is_TypeError_def)
next
  case (Some x)
  show ?thesis
  proof (cases "\<exists>xs. x = PList xs")
    case True
    with Some no_type_error_items [of f, OF assms] show ?thesis
      by (auto simp: required_list_def)
  next
    case False
    with Some show ?thesis
      by (cases x)
         (simp_all add: required_list_def no_type_error_def type_errors_def is_TypeError_def)
  qed
qed

lemma str_validate_error: "str_validate x = Inl e \<Longrightarrow> \<not> is_TypeError e"
  by (cases x) (auto simp: str_validate_def is_TypeError_def)

lemma external_error: "external tn f x = Inl e \<Longrightarrow> \<not> is_TypeError e"
  by (auto simp: external_def is_TypeError_def split: option.splits)

lemma then_check_error:
  assumes "then_check (str_validate x) f = Inl e"
    and "\<And>s e. f s = Inl e \<Longrightarrow> \<not> is_TypeError e"
  shows "\<not> is_TypeError e"
  using assms str_validate_error [of x]
  by (cases "str_validate x") (auto simp: then_check_def)

lemma check_name_error: "check_name s = Inl e \<Longrightarrow> \<not> is_TypeError e"
  by (auto simp: check_name_def is_TypeError_def split: if_splits)

lemma check_container_error: "check_container s = Inl e \<Longrightarrow> \<not> is_TypeError e"
  by (auto simp: check_container_def is_TypeError_def split: if_splits)

lemma Author_construct_error: "Author_construct s = Inl e \<Longrightarrow> \<not> is_TypeError e"
  by (auto simp: Author_construct_def check_author_def is_TypeError_def split: if_splits)

lemma DOI_construct_error: "DOI_construct s = Inl e \<Longrightarrow> \<not> is_TypeError e"
  by (auto simp: DOI_construct_def check_doi_def is_TypeError_def split: if_splits)

lemma Author_validate_error: "Author_validate x = Inl e \<Longrightarrow> \<not> is_TypeError e"
  using then_check_error [of x Author_construct e] Author_construct_error
  by (cases x) (auto simp: Author_validate_def)

lemma DOI_validate_error: "DOI_validate x = Inl e \<Longrightarrow> \<not> is_TypeError e"
  using then_check_error [of x DOI_construct e] DOI_construct_error
  by (cases x) (auto simp: DOI_validate_def)

lemma optional_error:
  assumes "\<And>x e. f x = Inl e \<Longrightarrow> \<not> is_TypeError e"
  shows "optional f x = Inl e \<Longrightarrow> \<not> is_TypeError e"
  using assms [of x] by (cases x; cases "f x") (auto simp: optional_def)

lemma optional_members_error:
  assumes "\<And>x es. f x = Inl es \<Longrightarrow> list_all (\<lambda>p. \<not> is_TypeError (snd p)) es"
  shows "optional f x = Inl es \<Longrightarrow> list_all (\<lambda>p. \<not> is_TypeError (snd p)) es"
  using assms [of x] by (cases x; cases "f x") (auto simp: optional_def)

lemma entrypoint_validate_error:
  "entrypoint_validate x = Inl es \<Longrightarrow> list_all (\<lambda>p. \<not> is_TypeError (snd p)) es"
  by (cases x) (auto simp: entrypoint_validate_def is_TypeError_def)

lemma contact_validate_error:
  "contact_validate T x = Inl es \<Longrightarrow> list_all (\<lambda>p. \<not> is_TypeError (snd p)) es"
  by (auto simp: contact_validate_def is_TypeError_def split: option.splits)

lemma name_validate_error:
  "then_check (str_validate x) check_name = Inl e \<Longrightarrow> \<not> is_TypeError e"
  by (erule then_check_error) (rule check_name_error)

lemma container_validate_error:
  "then_check (str_validate x) check_container = Inl e \<Longrightarrow> \<not> is_TypeError e"
  by (erule then_check_error) (rule check_container_error)

lemma construct_no_type_error: "no_type_error (construct T kw)"
proof -
  have 1: "no_type_error
      (required ''specVersion'' (external ''Version'' (Version_validate T)) kw)"
    by (rule no_type_error_required) (rule external_error)
  have 2: "no_type_error
      (required ''name'' (\<lambda>x. then_check (str_validate x) check_name) kw)"
    by (rule no_type_error_required) (rule name_validate_error)
  have 3: "no_type_error
      (required ''version'' (external ''Version'' (Version_validate T)) kw)"
    by (rule no_type_error_required) (rule external_error)
  have 4: "no_type_error
      (required ''container'' (\<lambda>x. then_check (str_validate x) check_container) kw)"
    by (rule no_type_error_required) (rule container_validate_error)
  have 5: "no_type_error (required_union ''entrypoint'' entrypoint_validate kw)"
    by (rule no_type_error_required_union) (rule entrypoint_validate_error)
  have 6: "no_type_error (with_default ''title'' None (optional str_validate) kw)"
    by (rule no_type_error_with_default) (rule optional_error [OF str_validate_error])
  have 7: "no_type_error (with_default ''description'' None (optional str_validate) kw)"
    by (rule no_type_error_with_default) (rule optional_error [OF str_validate_error])
  have 8: "no_type_error (required_list ''author'' Author_validate kw)"
    by (rule no_type_error_required_list) (rule Author_validate_error)
  have 9: "no_type_error (required_union ''contact'' (optional (contact_validate T)) kw)"
    by (rule no_type_error_required_union)
       (rule optional_members_error [OF contact_validate_error])
  have 10: "no_type_error
      (required ''repository'' (external ''AnyHttpUrl'' (AnyHttpUrl_validate T)) kw)"
    by (rule no_type_error_required) (rule external_error)
  have 11: "no_type_error (with_default ''documentation'' None
      (optional (external ''AnyHttpUrl'' (AnyHttpUrl_validate T))) kw)"
    by (rule no_type_error_with_default) (rule optional_error [OF external_error])
  have 12: "no_type_error (required ''citation'' (optional DOI_validate) kw)"
    by (rule no_type_error_required) (rule optional_error [OF DOI_validate_error])
  show ?thesis
    unfolding construct_def
    by (intro no_type_error_ap no_type_error_Inr 1 2 3 4 5 6 7 8 9 10 11 12)
qed

lemma validate_no_type_error: "validate T kw = Inl es \<Longrightarrow> type_errors es = []"
  using construct_no_type_error [of T kw]
  by (auto simp: validate_def no_type_error_def split: sum.splits)

text \<open>
  C9 (as amended). \<open>contact\<close> and \<open>citation\<close> are required and nullable. A mapping
  without the key fails, and the failure reports the key as missing; it is the schema
  library's validation error, and no failure of \<open>validate\<close> contains a \<open>TypeError\<close>. For
  a mapping that validates, removing the key leaves exactly that failure, while setting
  the key to null succeeds with the field null and every other field as before.
\<close>

theorem contact_citation_required_nullable:
  "(kw ''contact'' = None \<longrightarrow>
      (\<exists>es. validate T kw = Inl es \<and> (Loc ''contact'', missing) \<in> set es \<and>
         type_errors es = [])) \<and>
   (kw ''citation'' = None \<longrightarrow>
      (\<exists>es. validate T kw = Inl es \<and> (Loc ''citation'', missing) \<in> set es \<and>
         type_errors es = [])) \<and>
   (validate T kw = Inl es' \<longrightarrow> type_errors es' = []) \<and>
   (validate T kw = Inr m \<longrightarrow>
      validate T (kw(''contact'' := None)) = Inl [(Loc ''contact'', missing)] \<and>
      validate T (kw(''contact'' \<mapsto> PNone)) = Inr (m\<lparr>contact := None\<rparr>) \<and>
      validate T (kw(''citation'' := None)) = Inl [(Loc ''citation'', missing)] \<and>
      validate T (kw(''citation'' \<mapsto> PNone)) = Inr (m\<lparr>citation := None\<rparr>))"
proof (intro conjI impI)
  assume "kw ''contact'' = None"
  with construct_reports_contact [of kw T]
  show "\<exists>es. validate T kw = Inl es \<and> (Loc ''contact'', missing) \<in> set es \<and>
         type_errors es = []"
    using validate_no_type_error [of T kw] by (auto simp: validate_def)
next
  assume "kw ''citation'' = None"
  with construct_reports_citation [of kw T]
  show "\<exists>es. validate T kw = Inl es \<and> (Loc ''citation'', missing) \<in> set es \<and>
         type_errors es = []"
    using validate_no_type_error [of T kw] by (auto simp: validate_def)
next
  assume "validate T kw = Inl es'"
  then show "type_errors es' = []" by (rule validate_no_type_error)
next
  assume v: "validate T kw = Inr m"
  then obtain m0 where m0: "construct T kw = Inr m0" "m = default_title m0"
    by (auto simp: validate_def split: sum.splits)
  show "validate T (kw(''contact'' := None)) = Inl [(Loc ''contact'', missing)]"
    by (simp add: validate_def construct_without_contact(1) [OF m0(1)])
  show "validate T (kw(''contact'' \<mapsto> PNone)) = Inr (m\<lparr>contact := None\<rparr>)"
    by (simp add: validate_def construct_without_contact(2) [OF m0(1)] m0(2)
        default_title_contact)
  show "validate T (kw(''citation'' := None)) = Inl [(Loc ''citation'', missing)]"
    by (simp add: validate_def construct_without_citation(1) [OF m0(1)])
  show "validate T (kw(''citation'' \<mapsto> PNone)) = Inr (m\<lparr>citation := None\<rparr>)"
    by (simp add: validate_def construct_without_citation(2) [OF m0(1)] m0(2)
        default_title_citation)
qed

theorem contact_citation_required_nullable_witness:
  "validate sample_types sample_kwargs = Inr sample_record \<and>
   validate sample_types (sample_kwargs(''contact'' := None)) = Inl [(Loc ''contact'', missing)] \<and>
   validate sample_types (sample_kwargs(''contact'' \<mapsto> PNone)) =
     Inr (sample_record\<lparr>contact := None\<rparr>) \<and>
   validate sample_types (sample_kwargs(''citation'' := None)) = Inl [(Loc ''citation'', missing)] \<and>
   validate sample_types (sample_kwargs(''citation'' \<mapsto> PNone)) =
     Inr (sample_record\<lparr>citation := None\<rparr>) \<and>
   (sample_kwargs(''contact'' := None)) ''contact'' = None \<and>
   (\<exists>es. validate sample_types (sample_kwargs(''contact'' := None)) = Inl es \<and>
      (Loc ''contact'', missing) \<in> set es \<and> type_errors es = [])"
  using contact_citation_required_nullable [of sample_kwargs sample_types _ sample_record]
    contact_citation_required_nullable [of "sample_kwargs(''contact'' := None)" sample_types
      _ sample_record]
    sample_validate
  by simp

text \<open>
  C9 as stated fails: for the example mapping without \<open>contact\<close> (or without
  \<open>citation\<close>) the failure is the single missing-key entry, and it is not a \<open>TypeError\<close>.
\<close>

theorem omitted_key_error_counterexample:
  "validate sample_types (sample_kwargs(''contact'' := None)) =
     Inl [(Loc ''contact'', missing)] \<and>
   type_errors [(Loc ''contact'', missing)] = [] \<and>
   validate sample_types (sample_kwargs(''citation'' := None)) =
     Inl [(Loc ''citation'', missing)] \<and>
   type_errors [(Loc ''citation'', missing)] = []"
  by (simp add: validate_def construct_without_contact(1) [OF sample_construct]
      construct_without_citation(1) [OF sample_construct] type_errors_def is_TypeError_def)

end
